theory Spec2Isabelle
  imports Main "HOL-Library.Sublist"
begin

section \<open>Strings\<close>

text \<open>
  Titles are compared after lower-casing, by SQL \<open>lower()\<close> in the queries of
  \<open>crud.py\<close> and by \<open>str.lower()\<close> in \<open>update_user_todo\<close>. A string is a list of
  8-bit characters; \<open>lower_char\<close> maps the letters \<open>A\<close>..\<open>Z\<close> (codes 65..90) to
  \<open>a\<close>..\<open>z\<close> by setting bit 5 and leaves every other character alone.
\<close>

definition lower_char :: "char \<Rightarrow> char" where
  "lower_char c =
     (let n = (of_char c :: nat) in
      if 65 \<le> n \<and> n \<le> 90
      then Char (digit0 c) (digit1 c) (digit2 c) (digit3 c) (digit4 c) True (digit6 c) (digit7 c)
      else c)"

definition lower :: "string \<Rightarrow> string" where
  "lower s = map lower_char s"

text \<open>
  The decimal rendering of a counter inside an f-string, \<open>f"{counter}"\<close>, for the
  non-negative counters of the suffix search.
\<close>

definition digit_char :: "nat \<Rightarrow> char" where
  "digit_char d = ''0123456789'' ! d"

fun str_nat :: "nat \<Rightarrow> string" where
  "str_nat n = (if n < 10 then [digit_char n] else str_nat (n div 10) @ [digit_char (n mod 10)])"

declare str_nat.simps [simp del]

text \<open>\<open>sep.join(xs)\<close>.\<close>

fun join :: "string \<Rightarrow> string list \<Rightarrow> string" where
  "join sep [] = []"
| "join sep [x] = x"
| "join sep (x # y # ys) = x @ sep @ join sep (y # ys)"

text \<open>\<open>str(b)\<close> of a Python bool, as an f-string prints it.\<close>

definition str_bool :: "bool \<Rightarrow> string" where
  "str_bool b = (if b then ''True'' else ''False'')"

section \<open>The tables of \<open>models.py\<close>\<close>

text \<open>
  Timestamps are integers (seconds); the clock is passed to every operation that reads
  it. Each table is the list of its rows in insertion order. The two sequence fields
  stand for the auto-incremented primary keys of \<open>todos\<close> and
  \<open>password_reset_tokens\<close>.
\<close>

record User =
  user_id :: int
  username :: string
  email :: string
  hashed_password :: string

record Todo =
  todo_id :: int
  title :: string
  description :: "string option"
  completed :: bool
  due_at :: "int option"
  created_at :: int
  updated_at :: int
  priority :: string
  category :: string
  owner_id :: int

record PasswordResetToken =
  prt_id :: int
  prt_user_id :: int
  token :: string
  expires_at :: int

record Database =
  users :: "User list"
  todos :: "Todo list"
  password_reset_tokens :: "PasswordResetToken list"
  todo_seq :: int
  token_seq :: int

section \<open>The schemas of \<open>schemas.py\<close>\<close>

text \<open>
  \<open>TodoCreate\<close>: the title is required; the other fields are optional, and
  \<open>priority\<close> and \<open>category\<close> carry their defaults \<open>"low"\<close> and \<open>"others"\<close> when the
  request leaves them out (an explicit null stays \<open>None\<close>).
\<close>

record TodoCreate =
  c_title :: string
  c_description :: "string option"
  c_due_at :: "int option"
  c_priority :: "string option"
  c_category :: "string option"

text \<open>
  \<open>TodoUpdate\<close>: every field is optional, and \<open>exclude_unset\<close> tells a field the
  request did not supply (\<open>Unset\<close>) from one it supplied, possibly as an explicit null
  (\<open>Given None\<close>).
\<close>

datatype 'a field = Unset | Given "'a option"

record TodoUpdate =
  u_title :: "string field"
  u_description :: "string field"
  u_due_at :: "int field"
  u_completed :: "bool field"
  u_priority :: "string field"
  u_category :: "string field"

record CategoryStat =
  cs_category :: string
  cs_count :: int

section \<open>Errors\<close>

text \<open>
  \<open>HTTPException status detail\<close> is FastAPI's exception; \<open>AttributeError\<close> and
  \<open>IntegrityError\<close> are the Python and SQLAlchemy exceptions the operations below can
  raise.
\<close>

datatype error = HTTPException nat string | AttributeError | IntegrityError

section \<open>\<open>crud.py\<close>: queries by title and task creation\<close>

definition title_matches :: "string \<Rightarrow> int \<Rightarrow> Todo \<Rightarrow> bool" where
  "title_matches s uid t \<longleftrightarrow> lower (title t) = lower s \<and> owner_id t = uid"

definition get_todos :: "Database \<Rightarrow> int \<Rightarrow> nat \<Rightarrow> nat \<Rightarrow> Todo list" where
  "get_todos db uid skip limit = take limit (drop skip (filter (\<lambda>t. owner_id t = uid) (todos db)))"

definition get_todos_by_title :: "Database \<Rightarrow> string \<Rightarrow> int \<Rightarrow> Todo list" where
  "get_todos_by_title db s uid = filter (title_matches s uid) (todos db)"

text \<open>
  \<open>title_taken\<close> is the truth value of the query
  \<open>db.query(Todo).filter(lower(title) == lower(s), owner_id == uid).first()\<close>.
\<close>

definition title_taken :: "Todo list \<Rightarrow> int \<Rightarrow> string \<Rightarrow> bool" where
  "title_taken ts uid s \<longleftrightarrow> find (title_matches s uid) ts \<noteq> None"

definition suffixed :: "string \<Rightarrow> nat \<Rightarrow> string" where
  "suffixed original_title counter = original_title @ '' ('' @ str_nat counter @ '')''"

lemma digit_char_inj:
  assumes "a < 10" "b < 10" "digit_char a = digit_char b"
  shows "a = b"
proof -
  have d: "distinct ''0123456789''" by simp
  have l: "length ''0123456789'' = 10" by simp
  from assms show ?thesis
    unfolding digit_char_def using nth_eq_iff_index_eq [OF d, of a b] l by simp
qed

lemma str_nat_not_Nil: "str_nat n \<noteq> []"
  by (subst str_nat.simps) simp

lemma str_nat_inj: "str_nat m = str_nat n \<Longrightarrow> m = n"
proof (induction m arbitrary: n rule: str_nat.induct)
  case (1 m)
  show ?case
  proof (cases "m < 10")
    case small_m: True
    show ?thesis
    proof (cases "n < 10")
      case True
      with small_m "1.prems" have "digit_char m = digit_char n"
        by (simp add: str_nat.simps [of m] str_nat.simps [of n])
      with small_m True show ?thesis by (rule digit_char_inj)
    next
      case False
      with small_m "1.prems" have "[digit_char m] = str_nat (n div 10) @ [digit_char (n mod 10)]"
        by (simp add: str_nat.simps [of m] str_nat.simps [of n])
      then show ?thesis using str_nat_not_Nil [of "n div 10"] by auto
    qed
  next
    case big_m: False
    show ?thesis
    proof (cases "n < 10")
      case True
      with big_m "1.prems" have "str_nat (m div 10) @ [digit_char (m mod 10)] = [digit_char n]"
        by (simp add: str_nat.simps [of m] str_nat.simps [of n])
      then show ?thesis using str_nat_not_Nil [of "m div 10"] by auto
    next
      case False
      with big_m "1.prems" have
        eq: "str_nat (m div 10) @ [digit_char (m mod 10)] = str_nat (n div 10) @ [digit_char (n mod 10)]"
        by (simp add: str_nat.simps [of m] str_nat.simps [of n])
      then have "str_nat (m div 10) = str_nat (n div 10)" by simp
      with big_m "1.IH" have q: "m div 10 = n div 10" by blast
      from eq have "digit_char (m mod 10) = digit_char (n mod 10)" by simp
      then have r: "m mod 10 = n mod 10" by (intro digit_char_inj) simp_all
      from q r show ?thesis by (metis div_mult_mod_eq)
    qed
  qed
qed

lemma lower_digit_char: "d < 10 \<Longrightarrow> lower_char (digit_char d) = digit_char d"
proof -
  assume "d < 10"
  then have "digit_char d \<in> set ''0123456789''"
    unfolding digit_char_def by (intro nth_mem) simp
  then show ?thesis by (auto simp: lower_char_def)
qed

lemma lower_str_nat: "lower (str_nat n) = str_nat n"
proof (induction n rule: str_nat.induct)
  case (1 n)
  show ?case
  proof (cases "n < 10")
    case True
    then show ?thesis by (simp add: str_nat.simps [of n] lower_def lower_digit_char)
  next
    case False
    with "1.IH" have "lower (str_nat (n div 10)) = str_nat (n div 10)" by simp
    with False show ?thesis
      by (simp add: str_nat.simps [of n] lower_def lower_digit_char)
  qed
qed

lemma lower_append: "lower (xs @ ys) = lower xs @ lower ys"
  by (simp add: lower_def)

lemma lower_suffixed: "lower (suffixed s k) = lower s @ '' ('' @ str_nat k @ '')''"
proof -
  have "map lower_char (str_nat k) = str_nat k"
    using lower_str_nat [of k] by (simp add: lower_def)
  then show ?thesis by (simp add: suffixed_def lower_def lower_char_def)
qed

lemma lower_suffixed_inj: "lower (suffixed s j) = lower (suffixed s k) \<Longrightarrow> j = k"
  by (simp add: lower_suffixed str_nat_inj)

lemma title_taken_iff:
  "title_taken ts uid s \<longleftrightarrow> (\<exists>t \<in> set ts. lower (title t) = lower s \<and> owner_id t = uid)"
  by (auto simp: title_taken_def title_matches_def find_None_iff)

text \<open>
  The loop of \<open>create_user_todo\<close>: from \<open>counter\<close> upwards, the first candidate
  \<open>f"{original_title} ({counter})"\<close> that no task of the owner matches. Each taken
  candidate is the lower-cased title of a stored task that no later candidate equals,
  so the number of stored tasks matching a candidate from \<open>counter\<close> on decreases.
\<close>

function suffix_search :: "Todo list \<Rightarrow> int \<Rightarrow> string \<Rightarrow> nat \<Rightarrow> string" where
  "suffix_search ts uid original_title counter =
     (let suffixed_title = suffixed original_title counter
      in if \<not> title_taken ts uid suffixed_title then suffixed_title
         else suffix_search ts uid original_title (counter + 1))"
  by pat_completeness auto
termination
proof (relation "measure (\<lambda>(ts, uid, s, c).
    length (filter (\<lambda>t. \<exists>k\<ge>c. lower (title t) = lower (suffixed s k)) ts))", goal_cases)
  case 1
  show ?case by simp
next
  case (2 ts uid s c x)
  let ?P = "\<lambda>c t. \<exists>k\<ge>c. lower (title t) = lower (suffixed s k)"
  from 2 have "title_taken ts uid (suffixed s c)" by simp
  then obtain t where t: "t \<in> set ts" "lower (title t) = lower (suffixed s c)"
    by (auto simp: title_taken_iff)
  have sub: "filter (?P (c + 1)) ts = filter (?P (c + 1)) (filter (?P c) ts)"
    by (auto intro!: filter_cong [OF refl]) (use Suc_leD in blast)
  have in_c: "t \<in> set (filter (?P c) ts)" using t by auto
  have not_next: "\<not> ?P (c + 1) t"
  proof
    assume "?P (c + 1) t"
    then obtain k where "k \<ge> c + 1" "lower (title t) = lower (suffixed s k)" by blast
    with t(2) have "c = k" by (intro lower_suffixed_inj [of s]) simp
    with \<open>k \<ge> c + 1\<close> show False by simp
  qed
  have "length (filter (?P (c + 1)) (filter (?P c) ts)) < length (filter (?P c) ts)"
    using in_c not_next by (rule length_filter_less)
  with sub show ?case by simp
qed

declare suffix_search.simps [simp del]

text \<open>
  \<open>create_user_todo\<close>: the title is suffixed when a task of the owner already
  matches it, and the row is inserted. A \<open>None\<close> priority or category takes the
  column default on insert.
\<close>

definition resolve_title :: "Todo list \<Rightarrow> int \<Rightarrow> string \<Rightarrow> string" where
  "resolve_title ts uid original_title =
     (if title_taken ts uid original_title then suffix_search ts uid original_title 2
      else original_title)"

definition create_user_todo :: "Database \<Rightarrow> TodoCreate \<Rightarrow> int \<Rightarrow> int \<Rightarrow> Database \<times> Todo" where
  "create_user_todo db todo uid now =
     (let todo' = todo\<lparr>c_title := resolve_title (todos db) uid (c_title todo)\<rparr>;
          db_todo = \<lparr>todo_id = todo_seq db,
                     title = c_title todo',
                     description = c_description todo',
                     completed = False,
                     due_at = c_due_at todo',
                     created_at = now,
                     updated_at = now,
                     priority = (case c_priority todo' of None \<Rightarrow> ''low'' | Some p \<Rightarrow> p),
                     category = (case c_category todo' of None \<Rightarrow> ''others'' | Some c \<Rightarrow> c),
                     owner_id = uid\<rparr>
      in (db\<lparr>todos := todos db @ [db_todo], todo_seq := todo_seq db + 1\<rparr>, db_todo))"

section \<open>\<open>crud.py\<close>: lookup, update and deletion by id\<close>

definition find_todo :: "Database \<Rightarrow> int \<Rightarrow> int \<Rightarrow> Todo option" where
  "find_todo db i uid = find (\<lambda>t. todo_id t = i \<and> owner_id t = uid) (todos db)"

definition get_todo :: "Database \<Rightarrow> int \<Rightarrow> int \<Rightarrow> error + Todo" where
  "get_todo db i uid =
     (case find_todo db i uid of
        None \<Rightarrow> Inl (HTTPException 404 ''Todo not found'')
      | Some todo \<Rightarrow> Inr todo)"

text \<open>
  The argument \<open>todo\<close> of \<open>update_user_todo\<close> is a \<open>TodoUpdate\<close> object when the route
  \<open>PUT /todos/{id}\<close> calls it and a plain \<open>dict\<close> (the output of \<open>.dict(exclude_unset=True)\<close>)
  when the assistant calls it. A \<open>dict\<close> has no method \<open>model_dump\<close>.
\<close>

datatype update_arg = Schema TodoUpdate | PlainDict TodoUpdate

text \<open>
  The loop \<open>for field, value in update_data.items(): setattr(db_todo, field, value)\<close>
  over the supplied fields.
\<close>

definition set_fields :: "TodoUpdate \<Rightarrow> Todo \<Rightarrow> Todo" where
  "set_fields upd t =
     t\<lparr>title := (case u_title upd of Given (Some v) \<Rightarrow> v | _ \<Rightarrow> title t),
       description := (case u_description upd of Given v \<Rightarrow> v | Unset \<Rightarrow> description t),
       due_at := (case u_due_at upd of Given v \<Rightarrow> v | Unset \<Rightarrow> due_at t),
       completed := (case u_completed upd of Given (Some v) \<Rightarrow> v | _ \<Rightarrow> completed t),
       priority := (case u_priority upd of Given (Some v) \<Rightarrow> v | _ \<Rightarrow> priority t),
       category := (case u_category upd of Given (Some v) \<Rightarrow> v | _ \<Rightarrow> category t)\<rparr>"

text \<open>A null written to a column declared \<open>nullable=False\<close> fails at commit.\<close>

definition null_violation :: "TodoUpdate \<Rightarrow> bool" where
  "null_violation upd \<longleftrightarrow>
     u_title upd = Given None \<or> u_completed upd = Given None \<or>
     u_priority upd = Given None \<or> u_category upd = Given None"

text \<open>
  \<open>update_user_todo\<close>. When a new title differs from the current one, the source looks
  for another task of the owner with that title and, having found one, does nothing
  (\<open>pass\<close>): the query has no effect on the update and only its evaluation is modelled,
  \<open>update_data['title'].lower()\<close> raising on a null title. The column \<open>updated_at\<close> is
  refreshed when the row changes.
\<close>

definition update_user_todo ::
  "Database \<Rightarrow> int \<Rightarrow> update_arg \<Rightarrow> int \<Rightarrow> int \<Rightarrow> error + Database \<times> Todo" where
  "update_user_todo db i todo uid now =
     (case find_todo db i uid of
        None \<Rightarrow> Inl (HTTPException 404 ''Todo not found'')
      | Some db_todo \<Rightarrow>
          (case todo of
             PlainDict _ \<Rightarrow> Inl AttributeError
           | Schema upd \<Rightarrow>
               if u_title upd = Given None then Inl AttributeError
               else if null_violation upd then Inl IntegrityError
               else
                 let changed = set_fields upd db_todo;
                     row = (if changed = db_todo then db_todo else changed\<lparr>updated_at := now\<rparr>)
                 in Inr (db\<lparr>todos := map (\<lambda>t. if todo_id t = todo_id db_todo then row else t) (todos db)\<rparr>,
                         row)))"

definition delete_user_todo :: "Database \<Rightarrow> int \<Rightarrow> int \<Rightarrow> error + Database" where
  "delete_user_todo db i uid =
     (case find_todo db i uid of
        None \<Rightarrow> Inl (HTTPException 404 ''Todo not found'')
      | Some db_todo \<Rightarrow> Inr (db\<lparr>todos := filter (\<lambda>t. todo_id t \<noteq> todo_id db_todo) (todos db)\<rparr>))"

section \<open>\<open>crud.py\<close> and \<open>routes/dashboard.py\<close>: the dashboard\<close>

record TaskStats =
  stat_total :: int
  stat_completed :: int
  stat_in_progress :: int
  stat_overdue :: int

record PriorityStat =
  ps_priority :: string
  ps_count :: int

record DeadlineStat =
  ds_id :: int
  ds_title :: string
  ds_due_at :: int

record DashboardStats =
  stats :: TaskStats
  priorities :: "PriorityStat list"
  categories :: "CategoryStat list"
  deadlines :: "DeadlineStat list"

definition owned :: "Database \<Rightarrow> int \<Rightarrow> Todo list" where
  "owned db uid = filter (\<lambda>t. owner_id t = uid) (todos db)"

definition get_task_stats :: "Database \<Rightarrow> int \<Rightarrow> int \<Rightarrow> TaskStats" where
  "get_task_stats db uid now =
     (let total = int (length (owned db uid));
          n_completed = int (length (filter completed (owned db uid)));
          in_progress = total - n_completed;
          overdue = int (length (filter (\<lambda>t. \<not> completed t \<and>
                      (case due_at t of None \<Rightarrow> False | Some d \<Rightarrow> d < now)) (owned db uid)))
      in \<lparr>stat_total = total, stat_completed = n_completed, stat_in_progress = in_progress,
          stat_overdue = overdue\<rparr>)"

text \<open>
  \<open>SELECT key, count(id) ... GROUP BY key\<close>: one row per value of the key among the
  rows, with the number of rows that have it.
\<close>

definition group_count :: "(Todo \<Rightarrow> string) \<Rightarrow> Todo list \<Rightarrow> (string \<times> int) list" where
  "group_count key ts =
     map (\<lambda>k. (k, int (length (filter (\<lambda>t. key t = k) ts)))) (remdups (map key ts))"

definition get_tasks_by_priority :: "Database \<Rightarrow> int \<Rightarrow> PriorityStat list" where
  "get_tasks_by_priority db uid =
     map (\<lambda>(p, n). \<lparr>ps_priority = p, ps_count = n\<rparr>) (group_count priority (owned db uid))"

definition get_tasks_by_category :: "Database \<Rightarrow> int \<Rightarrow> CategoryStat list" where
  "get_tasks_by_category db uid =
     map (\<lambda>(c, n). \<lparr>cs_category = c, cs_count = n\<rparr>) (group_count category (owned db uid))"

definition due_key :: "Todo \<Rightarrow> int" where
  "due_key t = (case due_at t of None \<Rightarrow> 0 | Some d \<Rightarrow> d)"

definition get_upcoming_deadlines :: "Database \<Rightarrow> int \<Rightarrow> nat \<Rightarrow> int \<Rightarrow> Todo list" where
  "get_upcoming_deadlines db uid limit now =
     take limit (sort_key due_key
       (filter (\<lambda>t. \<not> completed t \<and> (case due_at t of None \<Rightarrow> False | Some d \<Rightarrow> d > now))
         (owned db uid)))"

definition all_categories :: "string list" where
  "all_categories = [''work'', ''personal'', ''shopping'', ''health'', ''education'', ''others'']"

text \<open>
  \<open>get_dashboard_data\<close>. The dict comprehension keeps the last count of a repeated
  key, hence the reversed association list; \<open>category_map.get(cat_name, 0)\<close> is the
  lookup with default 0.
\<close>

definition get_dashboard_data :: "Database \<Rightarrow> User \<Rightarrow> int \<Rightarrow> DashboardStats" where
  "get_dashboard_data db current_user now =
     (let uid = user_id current_user;
          cats = get_tasks_by_category db uid;
          category_map = map_of (rev (map (\<lambda>c. (cs_category c, cs_count c)) cats));
          full_categories =
            map (\<lambda>cat_name. \<lparr>cs_category = cat_name,
                               cs_count = (case category_map cat_name of None \<Rightarrow> 0 | Some n \<Rightarrow> n)\<rparr>)
              all_categories
      in \<lparr>stats = get_task_stats db uid now,
          priorities = get_tasks_by_priority db uid,
          categories = full_categories,
          deadlines = map (\<lambda>t. \<lparr>ds_id = todo_id t, ds_title = title t, ds_due_at = due_key t\<rparr>)
                        (get_upcoming_deadlines db uid 5 now)\<rparr>)"

section \<open>\<open>routes/chatbot.py\<close>: the tool dispatcher\<close>

text \<open>
  The arguments of a tool call, typed as the tool schemas of \<open>chat_with_bot\<close> declare
  them: every key is optional in the dict, strings except \<open>completed\<close>. \<open>None\<close> is
  an absent key.
\<close>

record ToolArgs =
  arg_title :: "string option"
  arg_description :: "string option"
  arg_due_at :: "string option"
  arg_priority :: "string option"
  arg_category :: "string option"
  arg_original_title :: "string option"
  arg_new_title :: "string option"
  arg_completed :: "bool option"

text \<open>
  The two sets of allowed values. The rejection messages join each set in the order in
  which the running process iterates it, which Python fixes per process and not by the
  source text: this order is the parameter \<open>priority_order\<close> (\<open>category_order\<close>) of
  the functions below, a permutation of the set.
\<close>

definition allowed_priorities :: "string list" where
  "allowed_priorities = [''low'', ''medium'', ''high'']"

definition allowed_categories :: "string list" where
  "allowed_categories =
     [''work'', ''personal'', ''study'', ''home'', ''health'', ''shopping'', ''others'']"

definition invalid_priority_msg :: "string list \<Rightarrow> string \<Rightarrow> string" where
  "invalid_priority_msg priority_order p =
     ''Invalid priority '' @ [CHR 0x27] @ p @ [CHR 0x27] @ ''. Allowed values are: '' @
     join '', '' priority_order @ ''.''"

definition invalid_category_msg :: "string list \<Rightarrow> string \<Rightarrow> string" where
  "invalid_category_msg category_order c =
     ''Invalid category '' @ [CHR 0x27] @ c @ [CHR 0x27] @ ''. Allowed values are: '' @
     join '', '' category_order @ ''.''"

text \<open>\<open>f"'{s}'"\<close>: a string between single quotes.\<close>

definition quoted :: "string \<Rightarrow> string" where
  "quoted s = [CHR 0x27] @ s @ [CHR 0x27]"

text \<open>
  The messages of pydantic's \<open>ValidationError\<close> for the two ways a title can fail
  validation (\<open>Field(..., max_length=255)\<close>, and the required title of \<open>TodoCreate\<close>).
\<close>

definition msg_too_long :: string where
  "msg_too_long = ''String should have at most 255 characters''"

definition msg_missing :: string where
  "msg_missing = ''Field required''"

definition format_todo :: "Todo \<Rightarrow> string" where
  "format_todo t =
     ''- '' @ title t @ '' (Priority: '' @ priority t @ '', Category: '' @ category t @
     '', Completed: '' @ str_bool (completed t) @ '')''"

text \<open>
  \<open>update_data\<close> of the branch \<open>update_todo\<close>, as the \<open>TodoUpdate\<close> it is validated
  into: every key of the arguments but \<open>original_title\<close>, with \<open>new_title\<close> stored
  under \<open>title\<close>; \<open>due\<close> is the parsed due date.
\<close>

definition update_data_of :: "ToolArgs \<Rightarrow> int option \<Rightarrow> TodoUpdate" where
  "update_data_of args due =
     \<lparr>u_title = (case arg_new_title args of
                   Some s \<Rightarrow> Given (Some s)
                 | None \<Rightarrow> (case arg_title args of Some s \<Rightarrow> Given (Some s) | None \<Rightarrow> Unset)),
      u_description = (case arg_description args of Some s \<Rightarrow> Given (Some s) | None \<Rightarrow> Unset),
      u_due_at = (case due of Some d \<Rightarrow> Given (Some d) | None \<Rightarrow> Unset),
      u_completed = (case arg_completed args of Some b \<Rightarrow> Given (Some b) | None \<Rightarrow> Unset),
      u_priority = (case arg_priority args of Some s \<Rightarrow> Given (Some s) | None \<Rightarrow> Unset),
      u_category = (case arg_category args of Some s \<Rightarrow> Given (Some s) | None \<Rightarrow> Unset)\<rparr>"

text \<open>\<open>list(clean_update_data.keys())\<close>: the supplied fields, in the order of the schema.\<close>

definition update_fields :: "TodoUpdate \<Rightarrow> string list" where
  "update_fields upd =
     (if u_title upd = Unset then [] else [''title'']) @
     (if u_description upd = Unset then [] else [''description'']) @
     (if u_due_at upd = Unset then [] else [''due_at'']) @
     (if u_completed upd = Unset then [] else [''completed'']) @
     (if u_priority upd = Unset then [] else [''priority'']) @
     (if u_category upd = Unset then [] else [''category''])"

definition title_too_long :: "TodoUpdate \<Rightarrow> bool" where
  "title_too_long upd \<longleftrightarrow> (case u_title upd of Given (Some s) \<Rightarrow> length s > 255 | _ \<Rightarrow> False)"

definition sorry_msg :: string where
  "sorry_msg = ''Sorry, I ran into an unexpected issue.''"

definition multiple_msg :: "string \<Rightarrow> Todo list \<Rightarrow> string" where
  "multiple_msg original_title matching_todos =
     ''Multiple todos found with a title similar to '' @ quoted original_title @
     ''. Please provide the exact title you wish to update from the following: '' @
     join '', '' (map (\<lambda>t. quoted (title t)) matching_todos) @ ''.''"

definition marked_complete_msg :: "string \<Rightarrow> string" where
  "marked_complete_msg s = ''Successfully marked '' @ quoted s @ '' as complete.''"

text \<open>The branch \<open>create_todo\<close>.\<close>

definition do_create_todo ::
  "string list \<Rightarrow> string list \<Rightarrow> ToolArgs \<Rightarrow> int option \<Rightarrow> Database \<Rightarrow> User \<Rightarrow> int \<Rightarrow>
   string \<times> Database" where
  "do_create_todo priority_order category_order args due db current_user now =
     (let prio = (case arg_priority args of None \<Rightarrow> ''low'' | Some p \<Rightarrow> p);
          cat = (case arg_category args of None \<Rightarrow> ''others'' | Some c \<Rightarrow> c)
      in if prio \<notin> set allowed_priorities then (invalid_priority_msg priority_order prio, db)
         else if cat \<notin> set allowed_categories then (invalid_category_msg category_order cat, db)
         else
           (case arg_title args of
              None \<Rightarrow> (''There was an issue creating the todo: '' @ msg_missing, db)
            | Some s \<Rightarrow>
                if length s > 255 then (''There was an issue creating the todo: '' @ msg_too_long, db)
                else
                  let todo_data = \<lparr>c_title = s, c_description = arg_description args,
                                    c_due_at = due, c_priority = Some prio, c_category = Some cat\<rparr>;
                      (db', new_todo) = create_user_todo db todo_data (user_id current_user) now
                  in (''Successfully created todo: '' @ quoted (title new_todo) @ ''.'', db')))"

text \<open>The branch \<open>list_todos\<close>: \<open>crud.get_todos\<close> with its defaults \<open>skip=0, limit=100\<close>.\<close>

definition do_list_todos :: "Database \<Rightarrow> User \<Rightarrow> string" where
  "do_list_todos db current_user =
     (let todos = get_todos db (user_id current_user) 0 100
      in if todos = [] then ''You have no outstanding todos.''
         else ''Your todos:'' @ [CHR 0x0A] @ join [CHR 0x0A] (map format_todo todos))"

text \<open>
  The branch \<open>update_todo\<close>. An exception raised by \<open>crud.update_user_todo\<close> is caught by
  the handler \<open>except Exception\<close> of \<open>execute_todo_action\<close>, which answers \<open>sorry_msg\<close>.
\<close>

definition do_update_todo ::
  "string list \<Rightarrow> string list \<Rightarrow> ToolArgs \<Rightarrow> int option \<Rightarrow> Database \<Rightarrow> User \<Rightarrow> int \<Rightarrow>
   string \<times> Database" where
  "do_update_todo priority_order category_order args due db current_user now =
     (case arg_original_title args of
        None \<Rightarrow> (''Please provide the title of the todo you want to update.'', db)
      | Some original_title \<Rightarrow>
          if original_title = [] then (''Please provide the title of the todo you want to update.'', db)
          else
            let update_data = update_data_of args due in
            if (case u_priority update_data of Given (Some p) \<Rightarrow> p \<notin> set allowed_priorities | _ \<Rightarrow> False)
            then (invalid_priority_msg priority_order (case arg_priority args of Some p \<Rightarrow> p | None \<Rightarrow> []), db)
            else if (case u_category update_data of Given (Some c) \<Rightarrow> c \<notin> set allowed_categories | _ \<Rightarrow> False)
            then (invalid_category_msg category_order (case arg_category args of Some c \<Rightarrow> c | None \<Rightarrow> []), db)
            else if update_fields update_data = []
            then (''Please provide at least one field to update (e.g., new title, description, due date, completed status, priority, or category).'', db)
            else
              (case get_todos_by_title db original_title (user_id current_user) of
                 [] \<Rightarrow> (''No todo found with title '' @ quoted original_title @ '' for your account.'', db)
               | [target_todo] \<Rightarrow>
                   if title_too_long update_data
                   then (''There was an issue updating the todo: '' @ msg_too_long, db)
                   else
                     (case update_user_todo db (todo_id target_todo) (PlainDict update_data)
                             (user_id current_user) now of
                        Inl e \<Rightarrow> (sorry_msg, db)
                      | Inr (db', updated_todo) \<Rightarrow>
                          if update_fields update_data = [''completed'']
                          then (marked_complete_msg (title updated_todo), db')
                          else (''Successfully updated '' @ quoted original_title @
                                ''. Changed fields: '' @ join '', '' (update_fields update_data) @ ''.'', db'))
               | matching_todos \<Rightarrow> (multiple_msg original_title matching_todos, db)))"

text \<open>The branch \<open>delete_todo\<close>.\<close>

definition do_delete_todo :: "ToolArgs \<Rightarrow> Database \<Rightarrow> User \<Rightarrow> string \<times> Database" where
  "do_delete_todo args db current_user =
     (case arg_title args of
        None \<Rightarrow> (''Please provide the title of the todo you want to delete.'', db)
      | Some todo_title \<Rightarrow>
          if todo_title = [] then (''Please provide the title of the todo you want to delete.'', db)
          else
            (case get_todos_by_title db todo_title (user_id current_user) of
               [] \<Rightarrow> (''No todo found with title '' @ quoted todo_title @ '' for your account.'', db)
             | [target_todo] \<Rightarrow>
                 (case delete_user_todo db (todo_id target_todo) (user_id current_user) of
                    Inl e \<Rightarrow> (sorry_msg, db)
                  | Inr db' \<Rightarrow> (''Successfully deleted todo: '' @ quoted (title target_todo) @ ''.'', db'))
             | matching_todos \<Rightarrow>
                 (''Multiple todos found. Please provide the exact title: '' @
                  join '', '' (map (\<lambda>t. quoted (title t)) matching_todos) @ ''.'', db)))"

text \<open>
  \<open>has_change\<close>: the arguments hold a key besides \<open>original_title\<close>, so that
  \<open>update_data\<close> is not empty.
\<close>

definition has_change :: "ToolArgs \<Rightarrow> bool" where
  "has_change args \<longleftrightarrow>
     arg_title args \<noteq> None \<or> arg_new_title args \<noteq> None \<or> arg_description args \<noteq> None \<or>
     arg_due_at args \<noteq> None \<or> arg_completed args \<noteq> None \<or> arg_priority args \<noteq> None \<or>
     arg_category args \<noteq> None"

definition date_msg :: "string \<Rightarrow> string" where
  "date_msg s =
     ''Could not understand the date '' @ quoted s @
     ''. Please use a more specific format (e.g., '' @ quoted ''tomorrow at 5pm'' @
     '', '' @ quoted ''2026-02-10'' @ '').''"

text \<open>The \<open>try\<close> block of \<open>execute_todo_action\<close>: one branch per action.\<close>

definition dispatch ::
  "string list \<Rightarrow> string list \<Rightarrow> string \<Rightarrow> ToolArgs \<Rightarrow> int option \<Rightarrow> Database \<Rightarrow> User \<Rightarrow> int \<Rightarrow>
   string \<times> Database" where
  "dispatch priority_order category_order action_type args due db user now =
     (if action_type = ''create_todo''
      then do_create_todo priority_order category_order args due db user now
      else if action_type = ''list_todos'' then (do_list_todos db user, db)
      else if action_type = ''update_todo''
      then do_update_todo priority_order category_order args due db user now
      else if action_type = ''delete_todo'' then do_delete_todo args db user
      else (''Unknown action: '' @ action_type, db))"

text \<open>
  \<open>execute_todo_action\<close>: the answer and the database after the call. \<open>parse_date\<close> is
  \<open>dateparser.parse\<close>; a due date is parsed for the actions \<open>create_todo\<close> and
  \<open>update_todo\<close> only, before the \<open>try\<close> block, and a date that does not parse ends the
  call.
\<close>

definition execute_todo_action ::
  "(string \<Rightarrow> int option) \<Rightarrow> string list \<Rightarrow> string list \<Rightarrow> int \<Rightarrow> string \<Rightarrow> ToolArgs \<Rightarrow>
   Database \<Rightarrow> User option \<Rightarrow> string \<times> Database" where
  "execute_todo_action parse_date priority_order category_order now action_type args db
     current_user =
     (case current_user of
        None \<Rightarrow> (''You must be logged in to manage your to-do list. Please log in and try again.'', db)
      | Some user \<Rightarrow>
          (case (if action_type \<in> {''create_todo'', ''update_todo''} then arg_due_at args else None) of
             None \<Rightarrow> dispatch priority_order category_order action_type args None db user now
           | Some s \<Rightarrow>
               (case parse_date s of
                  None \<Rightarrow> (date_msg s, db)
                | Some parsed_date \<Rightarrow>
                    dispatch priority_order category_order action_type args (Some parsed_date)
                      db user now)))"

section \<open>\<open>routes/auth.py\<close>: password reset by token\<close>

definition reset_msg :: string where
  "reset_msg = ''If your email is registered, a password reset link has been sent.''"

text \<open>
  \<open>forgot_password\<close>: the status and message of the response, and the database after
  the call. \<open>new_token\<close> is the value of \<open>secrets.token_urlsafe(32)\<close>; the column
  \<open>token\<close> is unique, so the commit fails on a token already stored. \<open>send_fails\<close>
  tells whether \<open>resend.Emails.send\<close> raised: the handler prints the failure and goes
  on.
\<close>

definition forgot_password ::
  "Database \<Rightarrow> string \<Rightarrow> string \<Rightarrow> int \<Rightarrow> bool \<Rightarrow> error + (nat \<times> string) \<times> Database" where
  "forgot_password db request_email new_token now send_fails =
     (case find (\<lambda>u. email u = request_email) (users db) of
        None \<Rightarrow> Inr ((200, reset_msg), db)
      | Some user \<Rightarrow>
          if new_token \<in> set (map token (password_reset_tokens db)) then Inl IntegrityError
          else
            let reset_token = \<lparr>prt_id = token_seq db, prt_user_id = user_id user,
                                token = new_token, expires_at = now + 3600\<rparr>;
                db' = db\<lparr>password_reset_tokens := password_reset_tokens db @ [reset_token],
                         token_seq := token_seq db + 1\<rparr>
            in if send_fails then Inr ((200, reset_msg), db') else Inr ((200, reset_msg), db'))"

definition delete_token :: "PasswordResetToken \<Rightarrow> Database \<Rightarrow> Database" where
  "delete_token reset_token db =
     db\<lparr>password_reset_tokens :=
          filter (\<lambda>r. prt_id r \<noteq> prt_id reset_token) (password_reset_tokens db)\<rparr>"

text \<open>
  \<open>reset_password_confirm\<close>: \<open>None\<close> is the response 204, \<open>Some e\<close> the exception
  raised; the database is returned in both cases, since an expired token is deleted
  before the exception. \<open>get_password_hash\<close> is the hash of module \<open>auth\<close>.
\<close>

definition reset_password_confirm ::
  "(string \<Rightarrow> string) \<Rightarrow> Database \<Rightarrow> string \<Rightarrow> string \<Rightarrow> int \<Rightarrow> error option \<times> Database" where
  "reset_password_confirm get_password_hash db tok new_password now =
     (case find (\<lambda>r. token r = tok) (password_reset_tokens db) of
        None \<Rightarrow> (Some (HTTPException 400 ''Invalid or expired token''), db)
      | Some reset_token \<Rightarrow>
          if expires_at reset_token < now
          then (Some (HTTPException 400 ''Invalid or expired token''), delete_token reset_token db)
          else
            (case find (\<lambda>u. user_id u = prt_user_id reset_token) (users db) of
               None \<Rightarrow> (Some (HTTPException 400 ''User not found''), db)
             | Some user \<Rightarrow>
                 let hashed = get_password_hash new_password;
                     db' = db\<lparr>users := map (\<lambda>u. if user_id u = user_id user
                                                  then u\<lparr>hashed_password := hashed\<rparr> else u) (users db)\<rparr>
                 in (None, delete_token reset_token db')))"

section \<open>Example stores\<close>

text \<open>Concrete rows and stores on which the properties below are evaluated.\<close>

definition example_todo :: "int \<Rightarrow> string \<Rightarrow> int \<Rightarrow> Todo" where
  "example_todo i s uid =
     \<lparr>todo_id = i, title = s, description = None, completed = False, due_at = None,
      created_at = 0, updated_at = 0, priority = ''low'', category = ''others'', owner_id = uid\<rparr>"

definition alice :: User where
  "alice = \<lparr>user_id = 1, username = ''alice'', email = ''alice@x.com'', hashed_password = ''h''\<rparr>"

definition example_db :: "Todo list \<Rightarrow> Database" where
  "example_db ts =
     \<lparr>users = [alice], todos = ts, password_reset_tokens = [],
      todo_seq = 1 + int (length ts), token_seq = 1\<rparr>"

definition request :: "string \<Rightarrow> TodoCreate" where
  "request s = \<lparr>c_title = s, c_description = None, c_due_at = None,
                 c_priority = Some ''low'', c_category = Some ''others''\<rparr>"

definition example_update :: TodoUpdate where
  "example_update = \<lparr>u_title = Given (Some ''Buy milk''), u_description = Given None,
     u_due_at = Unset, u_completed = Given (Some True), u_priority = Given (Some ''high''),
     u_category = Unset\<rparr>"

definition example_hash :: "string \<Rightarrow> string" where
  "example_hash s = ''#'' @ s"

definition example_token_db :: Database where
  "example_token_db =
     \<lparr>users = [alice], todos = [],
      password_reset_tokens = [\<lparr>prt_id = 1, prt_user_id = 1, token = ''tok-a'', expires_at = 3600\<rparr>,
                               \<lparr>prt_id = 2, prt_user_id = 1, token = ''tok-b'', expires_at = 7200\<rparr>],
      todo_seq = 1, token_seq = 3\<rparr>"

definition no_args :: ToolArgs where
  "no_args = \<lparr>arg_title = None, arg_description = None, arg_due_at = None, arg_priority = None,
     arg_category = None, arg_original_title = None, arg_new_title = None, arg_completed = None\<rparr>"

definition example_pair :: Database where
  "example_pair = example_db [example_todo 1 ''Buy milk'' 1, example_todo 2 ''buy milk'' 1]"

definition example_many :: Database where
  "example_many =
     example_db (map (\<lambda>i. example_todo (int i) (''task '' @ str_nat i) 1) [1..<101] @
                 [example_todo 101 ''zzz'' 1])"

definition example_shared :: Database where
  "example_shared =
     example_db [example_todo 1 ''Buy milk'' 1, example_todo 2 ''Pay rent'' 2,
                 (example_todo 3 ''Call mum'' 1)\<lparr>completed := True, priority := ''high''\<rparr>]"

text \<open>
  One iteration order of each of the two sets of allowed values, as a process may have
  it.
\<close>

definition seed_priorities :: "string list" where
  "seed_priorities = [''high'', ''low'', ''medium'']"

definition seed_categories :: "string list" where
  "seed_categories =
     [''home'', ''others'', ''work'', ''shopping'', ''study'', ''health'', ''personal'']"

definition example_blank :: Database where
  "example_blank = example_db [example_todo 1 [] 1, example_todo 2 [] 1]"

definition example_dangling :: Database where
  "example_dangling =
     \<lparr>users = [], todos = [],
      password_reset_tokens = [\<lparr>prt_id = 2, prt_user_id = 1, token = ''tok-b'', expires_at = 7200\<rparr>],
      todo_seq = 1, token_seq = 3\<rparr>"

lemmas example_defs = example_todo_def alice_def example_db_def request_def

section \<open>Properties of the title resolver\<close>

lemma suffix_search_first_free:
  "\<exists>n\<ge>c. suffix_search ts uid s c = suffixed s n \<and> \<not> title_taken ts uid (suffixed s n) \<and>
          (\<forall>k. c \<le> k \<and> k < n \<longrightarrow> title_taken ts uid (suffixed s k))"
proof (induction ts uid s c rule: suffix_search.induct)
  case (1 ts uid s c)
  show ?case
  proof (cases "title_taken ts uid (suffixed s c)")
    case False
    then have "suffix_search ts uid s c = suffixed s c"
      by (simp add: suffix_search.simps [of ts uid s c])
    with False show ?thesis by (intro exI [of _ c]) auto
  next
    case True
    then have step: "suffix_search ts uid s c = suffix_search ts uid s (c + 1)"
      by (simp add: suffix_search.simps [of ts uid s c])
    from "1.IH" [OF refl] True obtain n where n: "n \<ge> c + 1"
      "suffix_search ts uid s (c + 1) = suffixed s n" "\<not> title_taken ts uid (suffixed s n)"
      "\<forall>k. c + 1 \<le> k \<and> k < n \<longrightarrow> title_taken ts uid (suffixed s k)"
      by auto
    have "\<forall>k. c \<le> k \<and> k < n \<longrightarrow> title_taken ts uid (suffixed s k)"
    proof (intro allI impI)
      fix k assume k: "c \<le> k \<and> k < n"
      show "title_taken ts uid (suffixed s k)"
      proof (cases "k = c")
        case True with \<open>title_taken ts uid (suffixed s c)\<close> show ?thesis by simp
      next
        case False with k n(4) show ?thesis by simp
      qed
    qed
    with n step show ?thesis by (intro exI [of _ n]) auto
  qed
qed

lemma taken_run_bounded:
  assumes "\<forall>k. c \<le> k \<and> k < n \<longrightarrow> title_taken ts uid (suffixed s k)"
  shows "n - c \<le> length (filter (\<lambda>t. owner_id t = uid) ts)"
proof -
  let ?own = "filter (\<lambda>t. owner_id t = uid) ts"
  let ?f = "\<lambda>k. lower (suffixed s k)"
  have inj: "inj_on ?f {c..<n}"
    by (auto intro!: inj_onI dest: lower_suffixed_inj)
  have sub: "?f ` {c..<n} \<subseteq> (\<lambda>t. lower (title t)) ` set ?own"
  proof
    fix x assume "x \<in> ?f ` {c..<n}"
    then obtain k where k: "c \<le> k" "k < n" "x = ?f k" by auto
    with assms have "title_taken ts uid (suffixed s k)" by simp
    then obtain t where "t \<in> set ts" "lower (title t) = lower (suffixed s k)" "owner_id t = uid"
      by (auto simp: title_taken_iff)
    with k show "x \<in> (\<lambda>t. lower (title t)) ` set ?own" by force
  qed
  have "n - c = card (?f ` {c..<n})" using inj by (simp add: card_image)
  also have "\<dots> \<le> card ((\<lambda>t. lower (title t)) ` set ?own)"
    using sub by (intro card_mono) auto
  also have "\<dots> \<le> card (set ?own)" by (intro card_image_le) simp
  also have "\<dots> \<le> length ?own" by (rule card_length)
  finally show ?thesis .
qed

lemma suffix_search_free_2:
  "\<not> title_taken ts uid (suffixed s 2) \<Longrightarrow> suffix_search ts uid s 2 = suffixed s 2"
  by (simp add: suffix_search.simps [of ts uid s 2])

lemma suffix_search_free_3:
  "title_taken ts uid (suffixed s 2) \<Longrightarrow> \<not> title_taken ts uid (suffixed s 3) \<Longrightarrow>
   suffix_search ts uid s 2 = suffixed s 3"
  by (simp add: suffix_search.simps [of ts uid s 2] suffix_search.simps [of ts uid s 3])

lemma create_user_todo_title:
  "title (snd (create_user_todo db todo uid now)) = resolve_title (todos db) uid (c_title todo)"
  by (simp add: create_user_todo_def Let_def)

lemma create_user_todo_stored:
  "todos (fst (create_user_todo db todo uid now)) = todos db @ [snd (create_user_todo db todo uid now)]"
  by (simp add: create_user_todo_def Let_def)

lemma taken_simps:
  "title_taken [] uid s = False"
  "title_taken (t # ts) uid s = ((lower (title t) = lower s \<and> owner_id t = uid) \<or> title_taken ts uid s)"
  by (auto simp: title_taken_def title_matches_def)

text \<open>
  C1 (amended). When the requested title matches a task of the owner case-insensitively,
  \<open>create_user_todo\<close> stores the requested title, in the case it was requested in,
  followed by \<open>" (n)"\<close>, where \<open>n \<ge> 2\<close> is the first counter whose candidate no task of
  the owner matches: \<open>" (2)"\<close> when that candidate is free, \<open>" (3)"\<close> when \<open>" (2)"\<close> is
  taken and \<open>" (3)"\<close> is free. The stored title matches no task already stored for the
  owner, and the new row is appended to the table.
\<close>

theorem create_collision_stores_suffix:
  assumes "title_taken (todos db) uid (c_title todo)"
  shows "(\<exists>n\<ge>2. title (snd (create_user_todo db todo uid now)) = suffixed (c_title todo) n \<and>
            \<not> title_taken (todos db) uid (suffixed (c_title todo) n) \<and>
            (\<forall>k. 2 \<le> k \<and> k < n \<longrightarrow> title_taken (todos db) uid (suffixed (c_title todo) k))) \<and>
         (\<not> title_taken (todos db) uid (suffixed (c_title todo) 2) \<longrightarrow>
            title (snd (create_user_todo db todo uid now)) = suffixed (c_title todo) 2) \<and>
         (title_taken (todos db) uid (suffixed (c_title todo) 2) \<and>
          \<not> title_taken (todos db) uid (suffixed (c_title todo) 3) \<longrightarrow>
            title (snd (create_user_todo db todo uid now)) = suffixed (c_title todo) 3) \<and>
         todos (fst (create_user_todo db todo uid now)) =
           todos db @ [snd (create_user_todo db todo uid now)]"
proof -
  from assms have t: "title (snd (create_user_todo db todo uid now)) =
      suffix_search (todos db) uid (c_title todo) 2"
    by (simp add: create_user_todo_title resolve_title_def)
  show ?thesis
    unfolding t
    using suffix_search_first_free [of 2 "todos db" uid "c_title todo"]
    by (auto simp: suffix_search_free_2 suffix_search_free_3 create_user_todo_stored)
qed

text \<open>
  With \<open>"Buy milk"\<close> stored, creating \<open>"buy milk"\<close> stores \<open>"buy milk (2)"\<close>; with
  \<open>"Buy milk"\<close> and \<open>"buy milk (2)"\<close> stored, creating \<open>"BUY MILK"\<close> stores
  \<open>"BUY MILK (3)"\<close>.
\<close>

theorem create_collision_stores_suffix_witness:
  "title_taken (todos (example_db [example_todo 1 ''Buy milk'' 1])) 1 (c_title (request ''buy milk'')) \<and>
   title (snd (create_user_todo (example_db [example_todo 1 ''Buy milk'' 1]) (request ''buy milk'') 1 0))
     = ''buy milk (2)'' \<and>
   title (snd (create_user_todo
       (example_db [example_todo 1 ''Buy milk'' 1, example_todo 2 ''buy milk (2)'' 1])
       (request ''BUY MILK'') 1 0)) = ''BUY MILK (3)''"
proof -
  let ?db1 = "example_db [example_todo 1 ''Buy milk'' 1]"
  let ?db2 = "example_db [example_todo 1 ''Buy milk'' 1, example_todo 2 ''buy milk (2)'' 1]"
  have s2: "suffixed ''buy milk'' 2 = ''buy milk (2)''" "suffixed ''BUY MILK'' 2 = ''BUY MILK (2)''"
    "suffixed ''BUY MILK'' 3 = ''BUY MILK (3)''"
    by (simp_all add: suffixed_def str_nat.simps digit_char_def)
  have a: "title_taken (todos ?db1) 1 (c_title (request ''buy milk''))"
    by (simp add: example_defs taken_simps lower_def lower_char_def)
  have a2: "\<not> title_taken (todos ?db1) 1 (suffixed (c_title (request ''buy milk'')) 2)"
    by (simp add: example_defs taken_simps lower_def lower_char_def s2)
  have b: "title_taken (todos ?db2) 1 (c_title (request ''BUY MILK''))"
    "title_taken (todos ?db2) 1 (suffixed (c_title (request ''BUY MILK'')) 2)"
    "\<not> title_taken (todos ?db2) 1 (suffixed (c_title (request ''BUY MILK'')) 3)"
    by (simp_all add: example_defs taken_simps lower_def lower_char_def s2)
  from create_collision_stores_suffix [OF a, of 0] a2
  have "title (snd (create_user_todo ?db1 (request ''buy milk'') 1 0)) = suffixed (c_title (request ''buy milk'')) 2"
    by blast
  moreover from create_collision_stores_suffix [OF b(1), of 0] b(2,3)
  have "title (snd (create_user_todo ?db2 (request ''BUY MILK'') 1 0)) = suffixed (c_title (request ''BUY MILK'')) 3"
    by blast
  ultimately show ?thesis using a by (simp add: s2 request_def)
qed

text \<open>
  The scenario of the specification: after \<open>"Buy milk"\<close>, creating \<open>"buy milk"\<close> does
  not store \<open>"Buy milk (2)"\<close>: the suffix goes on the requested title, not on the stored
  one.
\<close>

theorem create_keeps_requested_case:
  "title (snd (create_user_todo (example_db []) (request ''Buy milk'') 1 0)) = ''Buy milk'' \<and>
   title (snd (create_user_todo
      (fst (create_user_todo (example_db []) (request ''Buy milk'') 1 0))
      (request ''buy milk'') 1 0)) = ''buy milk (2)'' \<and>
   title (snd (create_user_todo
      (fst (create_user_todo (example_db []) (request ''Buy milk'') 1 0))
      (request ''buy milk'') 1 0)) \<noteq> ''Buy milk (2)''"
  by (simp add: create_user_todo_def resolve_title_def example_defs taken_simps lower_def
      lower_char_def suffix_search.simps suffixed_def str_nat.simps digit_char_def Let_def)

text \<open>
  C2 (amended). The resolved title is never one a task of the owner already matches.
  When \<open>T\<close> and \<open>"T (2)"\<close> are taken and \<open>"T (3)"\<close> is free, the request \<open>T\<close> resolves
  to \<open>"T (3)"\<close>. The request \<open>"T (2)"\<close>, when taken, gets a suffix of its own and
  resolves to \<open>"T (2) (2)"\<close> when that is free. A request that matches no task is returned
  unchanged, whatever suffixed titles are stored.
\<close>

theorem resolve_title_never_taken:
  "\<not> title_taken ts uid (resolve_title ts uid s) \<and>
   (title_taken ts uid s \<and> title_taken ts uid (suffixed s 2) \<and> \<not> title_taken ts uid (suffixed s 3) \<longrightarrow>
      resolve_title ts uid s = suffixed s 3) \<and>
   (title_taken ts uid (suffixed s 2) \<and> \<not> title_taken ts uid (suffixed (suffixed s 2) 2) \<longrightarrow>
      resolve_title ts uid (suffixed s 2) = suffixed (suffixed s 2) 2) \<and>
   (\<not> title_taken ts uid s \<longrightarrow> resolve_title ts uid s = s)"
  using suffix_search_first_free [of 2 ts uid s]
  by (auto simp: resolve_title_def suffix_search_free_2 suffix_search_free_3)

theorem resolve_title_never_taken_witness:
  "title_taken [example_todo 1 ''Buy milk'' 1, example_todo 2 ''Buy milk (2)'' 1] 1 ''Buy milk'' \<and>
   title_taken [example_todo 1 ''Buy milk'' 1, example_todo 2 ''Buy milk (2)'' 1] 1 (suffixed ''Buy milk'' 2) \<and>
   resolve_title [example_todo 1 ''Buy milk'' 1, example_todo 2 ''Buy milk (2)'' 1] 1 ''Buy milk''
     = ''Buy milk (3)'' \<and>
   resolve_title [example_todo 1 ''Buy milk'' 1, example_todo 2 ''Buy milk (2)'' 1] 1 ''Buy milk (2)''
     = ''Buy milk (2) (2)''"
proof -
  let ?ts = "[example_todo 1 ''Buy milk'' 1, example_todo 2 ''Buy milk (2)'' 1]"
  have s: "suffixed ''Buy milk'' 2 = ''Buy milk (2)''" "suffixed ''Buy milk'' 3 = ''Buy milk (3)''"
    "suffixed ''Buy milk (2)'' 2 = ''Buy milk (2) (2)''"
    by (simp_all add: suffixed_def str_nat.simps digit_char_def)
  have t: "title_taken ?ts 1 ''Buy milk''" "title_taken ?ts 1 (suffixed ''Buy milk'' 2)"
    "\<not> title_taken ?ts 1 (suffixed ''Buy milk'' 3)"
    "\<not> title_taken ?ts 1 (suffixed (suffixed ''Buy milk'' 2) 2)"
    by (simp_all add: s example_defs taken_simps lower_def lower_char_def)
  from resolve_title_never_taken [of ?ts 1 "''Buy milk''"] t
  show ?thesis by (simp add: s)
qed

text \<open>
  With \<open>"Buy milk"\<close> and \<open>"Buy milk (2)"\<close> stored, the request \<open>"Buy milk (2)"\<close> does
  not resolve to \<open>"Buy milk (3)"\<close>; with only \<open>"Buy milk (2)"\<close> stored, neither does the
  request \<open>"Buy milk"\<close>.
\<close>

theorem resolve_title_suffixed_request:
  "resolve_title [example_todo 1 ''Buy milk'' 1, example_todo 2 ''Buy milk (2)'' 1] 1 ''Buy milk (2)''
     \<noteq> ''Buy milk (3)'' \<and>
   resolve_title [example_todo 1 ''Buy milk (2)'' 1] 1 ''Buy milk'' \<noteq> ''Buy milk (3)''"
  by (simp add: resolve_title_def example_defs taken_simps lower_def
      lower_char_def suffix_search.simps suffixed_def str_nat.simps digit_char_def Let_def)

text \<open>
  C9. The suffix search is a total function (its termination is proved with its
  definition): started at 2, it returns the candidate of some counter \<open>n \<ge> 2\<close> that no
  task of the owner matches, every candidate from 2 up to \<open>n\<close> is taken, and the number
  of candidates it rejected is at most the number of the owner's tasks.
\<close>

theorem suffix_search_terminates_first_free:
  "\<exists>n\<ge>2. suffix_search ts uid s 2 = suffixed s n \<and>
          \<not> title_taken ts uid (suffixed s n) \<and>
          (\<forall>k. 2 \<le> k \<and> k < n \<longrightarrow> title_taken ts uid (suffixed s k)) \<and>
          n - 2 \<le> length (filter (\<lambda>t. owner_id t = uid) ts)"
proof -
  from suffix_search_first_free [of 2 ts uid s] obtain n where n: "n \<ge> 2"
    "suffix_search ts uid s 2 = suffixed s n" "\<not> title_taken ts uid (suffixed s n)"
    "\<forall>k. 2 \<le> k \<and> k < n \<longrightarrow> title_taken ts uid (suffixed s k)" by blast
  from n(4) have "n - 2 \<le> length (filter (\<lambda>t. owner_id t = uid) ts)" by (rule taken_run_bounded)
  with n show ?thesis by blast
qed

theorem suffix_search_terminates_first_free_witness:
  "suffix_search [example_todo 1 ''Buy milk'' 1, example_todo 2 ''buy milk (2)'' 1] 1 ''BUY MILK'' 2
     = ''BUY MILK (3)'' \<and>
   (\<exists>n\<ge>2. ''BUY MILK (3)'' = suffixed ''BUY MILK'' n \<and>
      n - 2 \<le> length (filter (\<lambda>t. owner_id t = 1) [example_todo 1 ''Buy milk'' 1, example_todo 2 ''buy milk (2)'' 1]))"
proof -
  let ?ts = "[example_todo 1 ''Buy milk'' 1, example_todo 2 ''buy milk (2)'' 1]"
  have v: "suffix_search ?ts 1 ''BUY MILK'' 2 = ''BUY MILK (3)''"
    by (simp add: example_defs taken_simps lower_def
      lower_char_def suffix_search.simps suffixed_def str_nat.simps digit_char_def Let_def)
  from suffix_search_terminates_first_free [of ?ts 1 "''BUY MILK''"] v
  show ?thesis by auto
qed

section \<open>Properties of update\<close>

lemma find_todo_Some:
  "find_todo db i uid = Some t \<Longrightarrow> t \<in> set (todos db) \<and> todo_id t = i \<and> owner_id t = uid"
  by (auto simp: find_todo_def find_Some_iff)

text \<open>
  C3 (amended). When the task \<open>i\<close> belongs to the owner and the update supplies a title that another
  task of the owner matches case-insensitively, \<open>update_user_todo\<close> succeeds: the row
  gets the requested title as it is, every other supplied field takes its supplied value,
  every field left out keeps its value, and the other task stays in the table as it
  was, provided the update supplies no null for \<open>completed\<close>, \<open>priority\<close> or
  \<open>category\<close>, the columns the table declares non-nullable.
\<close>

theorem update_title_collision_not_blocked:
  assumes found: "find_todo db i uid = Some old"
      and new: "u_title upd = Given (Some new_title)"
      and collides: "other \<in> set (todos db)" "owner_id other = uid" "todo_id other \<noteq> i"
        "lower (title other) = lower new_title"
      and nonnull: "u_completed upd \<noteq> Given None" "u_priority upd \<noteq> Given None"
        "u_category upd \<noteq> Given None"
  shows "\<exists>db' row. update_user_todo db i (Schema upd) uid now = Inr (db', row) \<and>
           row \<in> set (todos db') \<and> todo_id row = i \<and> owner_id row = uid \<and>
           title row = new_title \<and>
           description row = (case u_description upd of Given v \<Rightarrow> v | Unset \<Rightarrow> description old) \<and>
           due_at row = (case u_due_at upd of Given v \<Rightarrow> v | Unset \<Rightarrow> due_at old) \<and>
           completed row = (case u_completed upd of Given (Some v) \<Rightarrow> v | _ \<Rightarrow> completed old) \<and>
           priority row = (case u_priority upd of Given (Some v) \<Rightarrow> v | _ \<Rightarrow> priority old) \<and>
           category row = (case u_category upd of Given (Some v) \<Rightarrow> v | _ \<Rightarrow> category old) \<and>
           other \<in> set (todos db') \<and> length (todos db') = length (todos db)"
proof -
  from found have old: "old \<in> set (todos db)" "todo_id old = i" "owner_id old = uid"
    by (auto dest: find_todo_Some)
  define changed where "changed = set_fields upd old"
  define row where "row = (if changed = old then old else changed\<lparr>updated_at := now\<rparr>)"
  define db' where
    "db' = db\<lparr>todos := map (\<lambda>t. if todo_id t = todo_id old then row else t) (todos db)\<rparr>"
  have nv: "\<not> null_violation upd" using new nonnull by (simp add: null_violation_def)
  have res: "update_user_todo db i (Schema upd) uid now = Inr (db', row)"
    using found new nv by (simp add: update_user_todo_def db'_def row_def changed_def Let_def)
  have fields: "todo_id row = i" "owner_id row = uid" "title row = new_title"
    "description row = (case u_description upd of Given v \<Rightarrow> v | Unset \<Rightarrow> description old)"
    "due_at row = (case u_due_at upd of Given v \<Rightarrow> v | Unset \<Rightarrow> due_at old)"
    "completed row = (case u_completed upd of Given (Some v) \<Rightarrow> v | _ \<Rightarrow> completed old)"
    "priority row = (case u_priority upd of Given (Some v) \<Rightarrow> v | _ \<Rightarrow> priority old)"
    "category row = (case u_category upd of Given (Some v) \<Rightarrow> v | _ \<Rightarrow> category old)"
  proof -
    have "row = changed \<or> row = changed\<lparr>updated_at := now\<rparr>" by (auto simp: row_def)
    then show "todo_id row = i" "owner_id row = uid" "title row = new_title"
      "description row = (case u_description upd of Given v \<Rightarrow> v | Unset \<Rightarrow> description old)"
      "due_at row = (case u_due_at upd of Given v \<Rightarrow> v | Unset \<Rightarrow> due_at old)"
      "completed row = (case u_completed upd of Given (Some v) \<Rightarrow> v | _ \<Rightarrow> completed old)"
      "priority row = (case u_priority upd of Given (Some v) \<Rightarrow> v | _ \<Rightarrow> priority old)"
      "category row = (case u_category upd of Given (Some v) \<Rightarrow> v | _ \<Rightarrow> category old)"
      using old new by (auto simp: changed_def set_fields_def)
  qed
  have in_row: "row \<in> set (todos db')"
    using old(1) by (force simp: db'_def)
  have in_other: "other \<in> set (todos db')"
    using collides(1,3) old(2) by (force simp: db'_def)
  have len: "length (todos db') = length (todos db)" by (simp add: db'_def)
  from res fields in_row in_other len show ?thesis by blast
qed

theorem update_title_collision_not_blocked_witness:
  "find_todo (example_db [example_todo 1 ''Buy milk'' 1, example_todo 2 ''Call mum'' 1]) 2 1
     = Some (example_todo 2 ''Call mum'' 1) \<and>
   lower (title (example_todo 1 ''Buy milk'' 1)) = lower ''Buy milk'' \<and>
   (\<exists>db' row. update_user_todo (example_db [example_todo 1 ''Buy milk'' 1, example_todo 2 ''Call mum'' 1])
        2 (Schema example_update) 1 50 = Inr (db', row) \<and>
      title row = ''Buy milk'' \<and> completed row = True \<and> priority row = ''high'' \<and>
      description row = None \<and> category row = ''others'' \<and>
      example_todo 1 ''Buy milk'' 1 \<in> set (todos db'))"
proof -
  let ?db = "example_db [example_todo 1 ''Buy milk'' 1, example_todo 2 ''Call mum'' 1]"
  have f: "find_todo ?db 2 1 = Some (example_todo 2 ''Call mum'' 1)"
    by (simp add: find_todo_def example_defs)
  have o: "example_todo 1 ''Buy milk'' 1 \<in> set (todos ?db)" "owner_id (example_todo 1 ''Buy milk'' 1) = 1"
    "todo_id (example_todo 1 ''Buy milk'' 1) \<noteq> 2"
    "lower (title (example_todo 1 ''Buy milk'' 1)) = lower ''Buy milk''"
    by (simp_all add: example_defs)
  have u: "u_title example_update = Given (Some ''Buy milk'')" "u_completed example_update \<noteq> Given None"
    "u_priority example_update \<noteq> Given None" "u_category example_update \<noteq> Given None"
    by (simp_all add: example_update_def)
  from update_title_collision_not_blocked [OF f u(1) o u(2,3,4), of 50] f o(4)
  show ?thesis by (auto simp: example_update_def example_todo_def)
qed

text \<open>
  The same update of task 2 to the title \<open>"Buy milk"\<close> of task 1, with \<open>completed\<close>
  supplied as null, fails at commit and is not applied.
\<close>

theorem update_null_completed_fails:
  "find_todo (example_db [example_todo 1 ''Buy milk'' 1, example_todo 2 ''Call mum'' 1]) 2 1
     = Some (example_todo 2 ''Call mum'' 1) \<and>
   u_title (example_update\<lparr>u_completed := Given None\<rparr>) = Given (Some ''Buy milk'') \<and>
   lower (title (example_todo 1 ''Buy milk'' 1)) = lower ''Buy milk'' \<and>
   update_user_todo (example_db [example_todo 1 ''Buy milk'' 1, example_todo 2 ''Call mum'' 1])
     2 (Schema (example_update\<lparr>u_completed := Given None\<rparr>)) 1 50 = Inl IntegrityError"
  by (simp add: update_user_todo_def find_todo_def null_violation_def example_update_def
      example_defs)

section \<open>Properties of the dashboard\<close>

lemma map_of_rev_distinct: "distinct (map fst xs) \<Longrightarrow> map_of (rev xs) = map_of xs"
proof (induction xs)
  case Nil
  then show ?case by simp
next
  case (Cons p xs)
  obtain k v where p: "p = (k, v)" by (cases p)
  from Cons.prems p have "k \<notin> dom (map_of xs)" by (simp add: dom_map_of_conv_image_fst)
  then have "[k \<mapsto> v] ++ map_of xs = (map_of xs)(k \<mapsto> v)"
    by (auto simp: map_add_def fun_eq_iff split: option.splits)
  with Cons p show ?case by simp
qed

lemma group_count_lookup:
  "map_of (rev (group_count key ts)) c =
     (if c \<in> key ` set ts then Some (int (length (filter (\<lambda>t. key t = c) ts))) else None)"
proof -
  have d: "distinct (map fst (group_count key ts))"
    by (simp add: group_count_def comp_def)
  have r: "map_of (rev (group_count key ts)) = map_of (group_count key ts)"
    using d by (rule map_of_rev_distinct)
  have "map_of (group_count key ts) c =
      (if c \<in> key ` set ts then Some (int (length (filter (\<lambda>t. key t = c) ts))) else None)"
    by (simp add: group_count_def map_of_map_restrict restrict_map_def)
  with r show ?thesis by simp
qed

lemma category_count:
  "(case map_of (rev (map (\<lambda>c. (cs_category c, cs_count c)) (get_tasks_by_category db uid))) c of
      None \<Rightarrow> 0 | Some n \<Rightarrow> n) = int (length (filter (\<lambda>t. category t = c) (owned db uid)))"
proof -
  have "map (\<lambda>c. (cs_category c, cs_count c)) (get_tasks_by_category db uid) =
        group_count category (owned db uid)"
    by (simp add: get_tasks_by_category_def comp_def case_prod_beta)
  moreover have "c \<notin> category ` set (owned db uid) \<Longrightarrow> filter (\<lambda>t. category t = c) (owned db uid) = []"
    by (auto simp: filter_empty_conv)
  ultimately show ?thesis by (simp add: group_count_lookup)
qed

text \<open>
  C5. The field \<open>categories\<close> of the dashboard lists exactly the six names work, personal,
  shopping, health, education, others, in this order; the count of each is the number
  of the owner's tasks in that category, hence not negative, and all six are 0 for an
  owner without tasks.
\<close>

theorem dashboard_categories_fixed:
  "map cs_category (categories (get_dashboard_data db u now)) =
     [''work'', ''personal'', ''shopping'', ''health'', ''education'', ''others''] \<and>
   (\<forall>c \<in> set (categories (get_dashboard_data db u now)).
      cs_count c = int (length (filter (\<lambda>t. category t = cs_category c) (owned db (user_id u)))) \<and>
      0 \<le> cs_count c) \<and>
   (owned db (user_id u) = [] \<longrightarrow>
      map cs_count (categories (get_dashboard_data db u now)) = [0, 0, 0, 0, 0, 0])"
proof -
  have cats: "categories (get_dashboard_data db u now) =
      map (\<lambda>n. \<lparr>cs_category = n,
                 cs_count = int (length (filter (\<lambda>t. category t = n) (owned db (user_id u))))\<rparr>)
        all_categories"
    by (simp add: get_dashboard_data_def Let_def category_count)
  show ?thesis unfolding cats by (simp add: all_categories_def comp_def)
qed

theorem dashboard_categories_fixed_witness:
  "map (\<lambda>c. (cs_category c, cs_count c))
     (categories (get_dashboard_data
        (example_db [example_todo 1 ''Buy milk'' 1, (example_todo 2 ''Report'' 1)\<lparr>category := ''work''\<rparr>,
                     (example_todo 3 ''Read'' 1)\<lparr>category := ''study''\<rparr>]) alice 0)) =
     [(''work'', 1), (''personal'', 0), (''shopping'', 0), (''health'', 0), (''education'', 0), (''others'', 1)] \<and>
   owned (example_db []) (user_id alice) = [] \<and>
   map (\<lambda>c. (cs_category c, cs_count c)) (categories (get_dashboard_data (example_db []) alice 0)) =
     [(''work'', 0), (''personal'', 0), (''shopping'', 0), (''health'', 0), (''education'', 0), (''others'', 0)]"
proof -
  let ?db = "example_db [example_todo 1 ''Buy milk'' 1, (example_todo 2 ''Report'' 1)\<lparr>category := ''work''\<rparr>,
                     (example_todo 3 ''Read'' 1)\<lparr>category := ''study''\<rparr>]"
  have e: "owned (example_db []) (user_id alice) = []" by (simp add: owned_def example_defs)
  have o: "owned ?db (user_id alice) = todos ?db" by (simp add: owned_def example_defs)
  have z: "map (\<lambda>c. (cs_category c, cs_count c)) cs = zip (map cs_category cs) (map cs_count cs)" for cs :: "CategoryStat list"
    by (induction cs) auto
  from dashboard_categories_fixed [of "example_db []" alice 0] e
  have "map (\<lambda>c. (cs_category c, cs_count c)) (categories (get_dashboard_data (example_db []) alice 0)) =
     [(''work'', 0), (''personal'', 0), (''shopping'', 0), (''health'', 0), (''education'', 0), (''others'', 0)]"
    by (simp add: z)
  moreover
  have "map (\<lambda>c. (cs_category c, cs_count c)) (categories (get_dashboard_data ?db alice 0)) =
     [(''work'', 1), (''personal'', 0), (''shopping'', 0), (''health'', 0), (''education'', 0), (''others'', 1)]"
    by (simp add: get_dashboard_data_def Let_def get_tasks_by_category_def group_count_def owned_def
        all_categories_def example_defs)
  ultimately show ?thesis using e by simp
qed

section \<open>Properties of the password reset\<close>

lemma find_token_Some:
  "find (\<lambda>r. token r = tok) rs = Some r \<Longrightarrow> r \<in> set rs \<and> token r = tok"
  by (auto simp: find_Some_iff)

lemma token_gone:
  assumes "distinct (map token rs)" "r \<in> set rs"
  shows "find (\<lambda>x. token x = token r) (filter (\<lambda>x. prt_id x \<noteq> prt_id r) rs) = None"
proof -
  have "x \<in> set rs \<Longrightarrow> token x = token r \<Longrightarrow> x = r" for x
    using assms by (meson distinct_map inj_onD)
  then show ?thesis by (auto simp: find_None_iff)
qed

text \<open>
  C7 (amended). Token strings being unique in the table, as the column declares: a
  reset-confirm with a stored token that has not expired and whose user exists succeeds,
  sets the password hash of that user and deletes the token, and any later reset-confirm
  with the same token is rejected with 400 \<open>Invalid or expired token\<close>. A reset-confirm
  with a stored token that has expired deletes the token, changes no user and is
  rejected with the same error, as is any later attempt. A reset-confirm with a stored
  token that has not expired and whose user does not exist is rejected with 400
  \<open>User not found\<close> and leaves the store, the token included, as it is.
\<close>

theorem reset_token_single_use:
  assumes unique: "distinct (map token (password_reset_tokens db))"
      and found: "find (\<lambda>r. token r = tok) (password_reset_tokens db) = Some reset_token"
  shows "(\<not> expires_at reset_token < now \<and>
          find (\<lambda>u. user_id u = prt_user_id reset_token) (users db) = Some user \<longrightarrow>
           (\<exists>db'. reset_password_confirm get_password_hash db tok new_password now = (None, db') \<and>
              find (\<lambda>u. user_id u = prt_user_id reset_token) (users db') =
                Some (user\<lparr>hashed_password := get_password_hash new_password\<rparr>) \<and>
              reset_token \<notin> set (password_reset_tokens db') \<and>
              reset_password_confirm get_password_hash db' tok later_password later_now =
                (Some (HTTPException 400 ''Invalid or expired token''), db'))) \<and>
         (expires_at reset_token < now \<longrightarrow>
           (\<exists>db'. reset_password_confirm get_password_hash db tok new_password now =
                (Some (HTTPException 400 ''Invalid or expired token''), db') \<and>
              reset_token \<notin> set (password_reset_tokens db') \<and>
              users db' = users db \<and>
              reset_password_confirm get_password_hash db' tok later_password later_now =
                (Some (HTTPException 400 ''Invalid or expired token''), db'))) \<and>
         (\<not> expires_at reset_token < now \<and>
          find (\<lambda>u. user_id u = prt_user_id reset_token) (users db) = None \<longrightarrow>
            reset_password_confirm get_password_hash db tok new_password now =
              (Some (HTTPException 400 ''User not found''), db))"
proof -
  from found have r: "reset_token \<in> set (password_reset_tokens db)" "token reset_token = tok"
    by (auto dest: find_token_Some)
  have gone: "find (\<lambda>x. token x = tok)
      (filter (\<lambda>x. prt_id x \<noteq> prt_id reset_token) (password_reset_tokens db)) = None"
    using token_gone [OF unique r(1)] r(2) by simp
  let ?h = "get_password_hash new_password"
  let ?users = "map (\<lambda>u. if user_id u = user_id user then u\<lparr>hashed_password := ?h\<rparr> else u) (users db)"
  have found_user: "find (\<lambda>u. user_id u = prt_user_id reset_token) ?users
      = Some (user\<lparr>hashed_password := ?h\<rparr>)"
    if u: "find (\<lambda>u. user_id u = prt_user_id reset_token) (users db) = Some user"
  proof -
    have uid: "user_id user = prt_user_id reset_token" using u by (auto simp: find_Some_iff)
    have "find (\<lambda>u. user_id u = k) (map (\<lambda>u. if user_id u = k then u\<lparr>hashed_password := h\<rparr> else u) us)
        = map_option (\<lambda>u. u\<lparr>hashed_password := h\<rparr>) (find (\<lambda>u. user_id u = k) us)" for k h us
      by (induction us) auto
    from this [of "prt_user_id reset_token" ?h "users db"] u uid show ?thesis by simp
  qed
  show ?thesis
  proof (intro conjI impI)
    assume a: "\<not> expires_at reset_token < now \<and>
          find (\<lambda>u. user_id u = prt_user_id reset_token) (users db) = Some user"
    then have fresh: "\<not> expires_at reset_token < now"
      and u: "find (\<lambda>u. user_id u = prt_user_id reset_token) (users db) = Some user" by simp_all
    let ?db' = "delete_token reset_token (db\<lparr>users := ?users\<rparr>)"
    have 1: "reset_password_confirm get_password_hash db tok new_password now = (None, ?db')"
      using found u fresh by (simp add: reset_password_confirm_def Let_def)
    have 2: "reset_password_confirm get_password_hash ?db' tok later_password later_now =
                (Some (HTTPException 400 ''Invalid or expired token''), ?db')"
      using gone by (simp add: reset_password_confirm_def delete_token_def)
    have 3: "find (\<lambda>u. user_id u = prt_user_id reset_token) (users ?db') =
        Some (user\<lparr>hashed_password := ?h\<rparr>)"
      using found_user [OF u] by (simp add: delete_token_def)
    have 4: "reset_token \<notin> set (password_reset_tokens ?db')"
      by (simp add: delete_token_def)
    from 1 2 3 4 show "\<exists>db'. reset_password_confirm get_password_hash db tok new_password now = (None, db') \<and>
              find (\<lambda>u. user_id u = prt_user_id reset_token) (users db') =
                Some (user\<lparr>hashed_password := get_password_hash new_password\<rparr>) \<and>
              reset_token \<notin> set (password_reset_tokens db') \<and>
              reset_password_confirm get_password_hash db' tok later_password later_now =
                (Some (HTTPException 400 ''Invalid or expired token''), db')"
      by blast
  next
    assume expired: "expires_at reset_token < now"
    let ?db' = "delete_token reset_token db"
    have 1: "reset_password_confirm get_password_hash db tok new_password now =
        (Some (HTTPException 400 ''Invalid or expired token''), ?db')"
      using found expired by (simp add: reset_password_confirm_def)
    have 2: "reset_password_confirm get_password_hash ?db' tok later_password later_now =
                (Some (HTTPException 400 ''Invalid or expired token''), ?db')"
      using gone by (simp add: reset_password_confirm_def delete_token_def)
    have 3: "reset_token \<notin> set (password_reset_tokens ?db')" "users ?db' = users db"
      by (simp_all add: delete_token_def)
    from 1 2 3 show "\<exists>db'. reset_password_confirm get_password_hash db tok new_password now =
                (Some (HTTPException 400 ''Invalid or expired token''), db') \<and>
              reset_token \<notin> set (password_reset_tokens db') \<and>
              users db' = users db \<and>
              reset_password_confirm get_password_hash db' tok later_password later_now =
                (Some (HTTPException 400 ''Invalid or expired token''), db')"
      by blast
  next
    assume "\<not> expires_at reset_token < now \<and>
          find (\<lambda>u. user_id u = prt_user_id reset_token) (users db) = None"
    with found show "reset_password_confirm get_password_hash db tok new_password now =
              (Some (HTTPException 400 ''User not found''), db)"
      by (simp add: reset_password_confirm_def)
  qed
qed

theorem reset_token_single_use_witness:
  "distinct (map token (password_reset_tokens example_token_db)) \<and>
   reset_password_confirm example_hash example_token_db ''tok-b'' ''new'' 4000 =
     (None, example_token_db\<lparr>users := [alice\<lparr>hashed_password := ''#new''\<rparr>],
        password_reset_tokens := [\<lparr>prt_id = 1, prt_user_id = 1, token = ''tok-a'', expires_at = 3600\<rparr>]\<rparr>) \<and>
   reset_password_confirm example_hash
     (snd (reset_password_confirm example_hash example_token_db ''tok-b'' ''new'' 4000)) ''tok-b'' ''again'' 4001 =
     (Some (HTTPException 400 ''Invalid or expired token''),
      snd (reset_password_confirm example_hash example_token_db ''tok-b'' ''new'' 4000)) \<and>
   reset_password_confirm example_hash example_token_db ''tok-a'' ''new'' 4000 =
     (Some (HTTPException 400 ''Invalid or expired token''),
      example_token_db\<lparr>password_reset_tokens := [\<lparr>prt_id = 2, prt_user_id = 1, token = ''tok-b'', expires_at = 7200\<rparr>]\<rparr>)"
proof -
  have ok: "distinct (map token (password_reset_tokens example_token_db))"
    by (simp add: example_token_db_def)
  have f: "find (\<lambda>r. token r = ''tok-b'') (password_reset_tokens example_token_db) =
      Some \<lparr>prt_id = 2, prt_user_id = 1, token = ''tok-b'', expires_at = 7200\<rparr>"
    by (simp add: example_token_db_def)
  have u: "\<not> expires_at \<lparr>prt_id = 2, prt_user_id = 1, token = ''tok-b'', expires_at = 7200\<rparr> < 4000 \<and>
      find (\<lambda>u. user_id u = prt_user_id \<lparr>prt_id = 2, prt_user_id = 1, token = ''tok-b'', expires_at = 7200\<rparr>)
        (users example_token_db) = Some alice"
    by (simp add: example_token_db_def alice_def)
  have v: "reset_password_confirm example_hash example_token_db ''tok-b'' ''new'' 4000 =
     (None, example_token_db\<lparr>users := [alice\<lparr>hashed_password := ''#new''\<rparr>],
        password_reset_tokens := [\<lparr>prt_id = 1, prt_user_id = 1, token = ''tok-a'', expires_at = 3600\<rparr>]\<rparr>)"
    by (simp add: reset_password_confirm_def delete_token_def example_token_db_def alice_def
        example_hash_def Let_def)
  have e: "reset_password_confirm example_hash example_token_db ''tok-a'' ''new'' 4000 =
     (Some (HTTPException 400 ''Invalid or expired token''),
      example_token_db\<lparr>password_reset_tokens := [\<lparr>prt_id = 2, prt_user_id = 1, token = ''tok-b'', expires_at = 7200\<rparr>]\<rparr>)"
    by (simp add: reset_password_confirm_def delete_token_def example_token_db_def alice_def
        example_hash_def Let_def)
  from reset_token_single_use [OF ok f, where now = 4000 and user = alice
      and get_password_hash = example_hash and new_password = "''new''"
      and later_password = "''again''" and later_now = 4001] u
  have "reset_password_confirm example_hash
     (snd (reset_password_confirm example_hash example_token_db ''tok-b'' ''new'' 4000)) ''tok-b'' ''again'' 4001 =
     (Some (HTTPException 400 ''Invalid or expired token''),
      snd (reset_password_confirm example_hash example_token_db ''tok-b'' ''new'' 4000))"
    by auto
  with ok v e show ?thesis by simp
qed

text \<open>
  After the account of user 1 was deleted, the unexpired token \<open>tok-b\<close> of that user is
  still stored: the reset-confirm is rejected with \<open>User not found\<close>, the token stays, and
  a second attempt gets the same answer, not the invalid/expired error.
\<close>

theorem reset_token_dangling_user:
  "find (\<lambda>r. token r = ''tok-b'') (password_reset_tokens example_dangling) =
     Some \<lparr>prt_id = 2, prt_user_id = 1, token = ''tok-b'', expires_at = 7200\<rparr> \<and>
   reset_password_confirm example_hash example_dangling ''tok-b'' ''new'' 4000 =
     (Some (HTTPException 400 ''User not found''), example_dangling) \<and>
   reset_password_confirm example_hash
     (snd (reset_password_confirm example_hash example_dangling ''tok-b'' ''new'' 4000))
     ''tok-b'' ''again'' 4001 =
     (Some (HTTPException 400 ''User not found''), example_dangling)"
  by (simp add: reset_password_confirm_def example_dangling_def)

text \<open>
  C8. For an email that belongs to a registered user and an email that belongs to
  none, \<open>forgot_password\<close> answers both requests with status 200 and the same message,
  the generated token being one that is not stored yet.
\<close>

theorem forgot_password_same_response:
  assumes registered: "find (\<lambda>u. email u = email1) (users db) \<noteq> None"
      and unregistered: "find (\<lambda>u. email u = email2) (users db) = None"
      and fresh: "new_token \<notin> set (map token (password_reset_tokens db))"
  shows "\<exists>db1 db2.
           forgot_password db email1 new_token now send_fails = Inr ((200, reset_msg), db1) \<and>
           forgot_password db email2 new_token2 now2 send_fails2 = Inr ((200, reset_msg), db2)"
  using assms by (auto simp: forgot_password_def Let_def)

theorem forgot_password_same_response_witness:
  "find (\<lambda>u. email u = ''alice@x.com'') (users example_token_db) \<noteq> None \<and>
   find (\<lambda>u. email u = ''bob@x.com'') (users example_token_db) = None \<and>
   ''tok-c'' \<notin> set (map token (password_reset_tokens example_token_db)) \<and>
   map_sum id fst (forgot_password example_token_db ''alice@x.com'' ''tok-c'' 100 False) =
     Inr (200, reset_msg) \<and>
   map_sum id fst (forgot_password example_token_db ''bob@x.com'' ''tok-c'' 100 False) =
     Inr (200, reset_msg)"
proof -
  have h: "find (\<lambda>u. email u = ''alice@x.com'') (users example_token_db) \<noteq> None"
    "find (\<lambda>u. email u = ''bob@x.com'') (users example_token_db) = None"
    "''tok-c'' \<notin> set (map token (password_reset_tokens example_token_db))"
    by (simp_all add: example_token_db_def alice_def)
  from forgot_password_same_response [OF h, of 100 False "''tok-c''" 100 False] h
  show ?thesis by auto
qed

section \<open>Properties of the tool dispatcher\<close>

lemma sublist_join: "x \<in> set xs \<Longrightarrow> sublist x (join sep xs)"
proof (induction sep xs rule: join.induct)
  case (1 sep)
  then show ?case by simp
next
  case (2 sep y)
  then show ?case by simp
next
  case (3 sep y z zs)
  show ?case
  proof (cases "x = y")
    case True
    then show ?thesis by simp
  next
    case False
    with 3 have "sublist x (join sep (z # zs))" by simp
    then have "sublist x ((y @ sep) @ join sep (z # zs))"
      by (meson sublist_append_leftI sublist_order.order.trans)
    then show ?thesis by simp
  qed
qed

lemma set_join: "set (join sep xs) \<subseteq> set sep \<union> (\<Union>x \<in> set xs. set x)"
  by (induction sep xs rule: join.induct) auto

lemma update_fields_Nil:
  "update_fields (update_data_of args due) = [] \<longleftrightarrow>
     arg_title args = None \<and> arg_new_title args = None \<and> arg_description args = None \<and>
     due = None \<and> arg_completed args = None \<and> arg_priority args = None \<and> arg_category args = None"
  by (auto simp: update_fields_def update_data_of_def split: option.splits if_splits)

lemma do_update_todo_many:
  assumes "arg_original_title args = Some original_title"
      and "2 \<le> length (get_todos_by_title db original_title (user_id user))"
  shows "snd (do_update_todo priority_order category_order args due db user now) = db"
proof -
  from assms(2) obtain a b cs where
    "get_todos_by_title db original_title (user_id user) = a # b # cs"
    by (auto simp: numeral_2_eq_2 Suc_le_length_iff)
  with assms(1) show ?thesis by (simp add: do_update_todo_def Let_def)
qed




lemma do_update_todo_many_valid:
  assumes "arg_original_title args = Some original_title" "original_title \<noteq> []"
      and "2 \<le> length (get_todos_by_title db original_title (user_id user))"
      and "\<forall>p. arg_priority args = Some p \<longrightarrow> p \<in> set allowed_priorities"
      and "\<forall>c. arg_category args = Some c \<longrightarrow> c \<in> set allowed_categories"
      and "update_fields (update_data_of args due) \<noteq> []"
  shows "do_update_todo priority_order category_order args due db user now =
     (multiple_msg original_title (get_todos_by_title db original_title (user_id user)), db)"
proof -
  from assms(3) obtain a b cs where
    m: "get_todos_by_title db original_title (user_id user) = a # b # cs"
    by (auto simp: numeral_2_eq_2 Suc_le_length_iff)
  have p: "(case u_priority (update_data_of args due) of
             Given (Some p) \<Rightarrow> p \<notin> set allowed_priorities | _ \<Rightarrow> False) = False"
    using assms(4) by (cases "arg_priority args") (simp_all add: update_data_of_def)
  have c: "(case u_category (update_data_of args due) of
             Given (Some c) \<Rightarrow> c \<notin> set allowed_categories | _ \<Rightarrow> False) = False"
    using assms(5) by (cases "arg_category args") (simp_all add: update_data_of_def)
  show ?thesis
    unfolding do_update_todo_def Let_def p c
    by (simp only: assms(1,2,6) m option.case list.case if_False)
qed


lemma execute_update_todo:
  "execute_todo_action parse_date priority_order category_order now ''update_todo'' args db (Some user) =
     (case arg_due_at args of
        None \<Rightarrow> do_update_todo priority_order category_order args None db user now
      | Some s \<Rightarrow>
          (case parse_date s of
             None \<Rightarrow> (date_msg s, db)
           | Some d \<Rightarrow> do_update_todo priority_order category_order args (Some d) db user now))"
  by (simp add: execute_todo_action_def dispatch_def split: option.splits)

lemma execute_list_todos:
  "execute_todo_action parse_date priority_order category_order now ''list_todos'' args db (Some user) = (do_list_todos db user, db)"
  by (simp add: execute_todo_action_def dispatch_def)

lemma example_pair_matches:
  "get_todos_by_title example_pair ''BUY MILK'' (user_id alice) =
     [example_todo 1 ''Buy milk'' 1, example_todo 2 ''buy milk'' 1]"
  "get_todos_by_title example_pair ''Buy milk'' (user_id alice) =
     [example_todo 1 ''Buy milk'' 1, example_todo 2 ''buy milk'' 1]"
  by (simp_all add: get_todos_by_title_def example_pair_def example_defs title_matches_def lower_def
        lower_char_def)

text \<open>
  C4 (amended). When \<open>original_title\<close> matches two or more tasks of the owner
  case-insensitively, a call of \<open>update_todo\<close> changes nothing in the store. When
  moreover \<open>original_title\<close> is not the empty string, the arguments hold at least one
  change field, the due date (if given) parses and the priority and category (if given)
  are allowed values, the answer is the disambiguation message, which quotes the title
  of every matching task.
\<close>

theorem update_todo_ambiguous:
  assumes "arg_original_title args = Some original_title"
      and "2 \<le> length (get_todos_by_title db original_title (user_id user))"
  shows "snd (execute_todo_action parse_date priority_order category_order now ''update_todo'' args db (Some user)) = db \<and>
         (original_title \<noteq> [] \<and> has_change args \<and>
          (\<forall>s. arg_due_at args = Some s \<longrightarrow> parse_date s \<noteq> None) \<and>
          (\<forall>p. arg_priority args = Some p \<longrightarrow> p \<in> set allowed_priorities) \<and>
          (\<forall>c. arg_category args = Some c \<longrightarrow> c \<in> set allowed_categories) \<longrightarrow>
          fst (execute_todo_action parse_date priority_order category_order now ''update_todo'' args db (Some user)) =
            multiple_msg original_title (get_todos_by_title db original_title (user_id user)) \<and>
          (\<forall>t \<in> set (get_todos_by_title db original_title (user_id user)).
             sublist (quoted (title t))
               (fst (execute_todo_action parse_date priority_order category_order now ''update_todo'' args db (Some user)))))"
proof (intro conjI impI)
  show "snd (execute_todo_action parse_date priority_order category_order now ''update_todo'' args db (Some user)) = db"
    unfolding execute_update_todo
    by (simp add: do_update_todo_many [OF assms] split: option.splits)
next
  assume v: "original_title \<noteq> [] \<and> has_change args \<and>
          (\<forall>s. arg_due_at args = Some s \<longrightarrow> parse_date s \<noteq> None) \<and>
          (\<forall>p. arg_priority args = Some p \<longrightarrow> p \<in> set allowed_priorities) \<and>
          (\<forall>c. arg_category args = Some c \<longrightarrow> c \<in> set allowed_categories)"
  define due where "due = (case arg_due_at args of None \<Rightarrow> None | Some s \<Rightarrow> parse_date s)"
  have due_iff: "due = None \<longleftrightarrow> arg_due_at args = None"
    using v by (cases "arg_due_at args") (simp_all add: due_def)
  have ex: "execute_todo_action parse_date priority_order category_order now ''update_todo'' args db (Some user) =
      do_update_todo priority_order category_order args due db user now"
  proof (cases "arg_due_at args")
    case None
    then show ?thesis unfolding execute_update_todo due_def by simp
  next
    case (Some s)
    with v obtain d where "parse_date s = Some d" by auto
    with Some show ?thesis unfolding execute_update_todo due_def by simp
  qed
  have ch: "update_fields (update_data_of args due) \<noteq> []"
    using v due_iff unfolding update_fields_Nil has_change_def by blast
  have r: "execute_todo_action parse_date priority_order category_order now ''update_todo'' args db (Some user) =
     (multiple_msg original_title (get_todos_by_title db original_title (user_id user)), db)"
    unfolding ex using assms(1) _ assms(2) _ _ ch
  proof (rule do_update_todo_many_valid)
    show "original_title \<noteq> []" using v by blast
    show "\<forall>p. arg_priority args = Some p \<longrightarrow> p \<in> set allowed_priorities" using v by blast
    show "\<forall>c. arg_category args = Some c \<longrightarrow> c \<in> set allowed_categories" using v by blast
  qed
  then show "fst (execute_todo_action parse_date priority_order category_order now ''update_todo'' args db (Some user)) =
            multiple_msg original_title (get_todos_by_title db original_title (user_id user))"
    by simp
  show "\<forall>t \<in> set (get_todos_by_title db original_title (user_id user)).
             sublist (quoted (title t))
               (fst (execute_todo_action parse_date priority_order category_order now ''update_todo'' args db (Some user)))"
  proof
    fix t assume "t \<in> set (get_todos_by_title db original_title (user_id user))"
    then have "quoted (title t) \<in> set (map (\<lambda>t. quoted (title t))
        (get_todos_by_title db original_title (user_id user)))" by simp
    then have j: "sublist (quoted (title t)) (join '', '' (map (\<lambda>t. quoted (title t))
        (get_todos_by_title db original_title (user_id user))))" by (rule sublist_join)
    have "sublist (join '', '' (map (\<lambda>t. quoted (title t))
        (get_todos_by_title db original_title (user_id user))))
        (multiple_msg original_title (get_todos_by_title db original_title (user_id user)))"
      unfolding multiple_msg_def
      by (metis append.assoc sublist_appendI)
    with j have "sublist (quoted (title t))
        (multiple_msg original_title (get_todos_by_title db original_title (user_id user)))"
      by (rule sublist_order.order.trans)
    then show "sublist (quoted (title t))
               (fst (execute_todo_action parse_date priority_order category_order now ''update_todo'' args db (Some user)))"
      unfolding r by simp
  qed
qed

theorem update_todo_ambiguous_witness:
  "arg_original_title (no_args\<lparr>arg_original_title := Some ''BUY MILK'', arg_completed := Some True\<rparr>)
     = Some ''BUY MILK'' \<and>
   get_todos_by_title example_pair ''BUY MILK'' (user_id alice) =
     [example_todo 1 ''Buy milk'' 1, example_todo 2 ''buy milk'' 1] \<and>
   execute_todo_action (\<lambda>s. None) seed_priorities seed_categories 0 ''update_todo''
     (no_args\<lparr>arg_original_title := Some ''BUY MILK'', arg_completed := Some True\<rparr>)
     example_pair (Some alice) =
     (''Multiple todos found with a title similar to '' @ quoted ''BUY MILK'' @
      ''. Please provide the exact title you wish to update from the following: '' @
      quoted ''Buy milk'' @ '', '' @ quoted ''buy milk'' @ ''.'', example_pair)"
proof -
  let ?args = "no_args\<lparr>arg_original_title := Some ''BUY MILK'', arg_completed := Some True\<rparr>"
  let ?run = "execute_todo_action (\<lambda>s. None) seed_priorities seed_categories 0 ''update_todo'' ?args example_pair (Some alice)"
  have a: "arg_original_title ?args = Some ''BUY MILK''" by simp
  note m = example_pair_matches(1)
  have l: "2 \<le> length (get_todos_by_title example_pair ''BUY MILK'' (user_id alice))"
    unfolding m by simp
  have v: "''BUY MILK'' \<noteq> [] \<and> has_change ?args \<and>
          (\<forall>s. arg_due_at ?args = Some s \<longrightarrow> (\<lambda>s. None :: int option) s \<noteq> None) \<and>
          (\<forall>p. arg_priority ?args = Some p \<longrightarrow> p \<in> set allowed_priorities) \<and>
          (\<forall>c. arg_category ?args = Some c \<longrightarrow> c \<in> set allowed_categories)"
    by (simp add: has_change_def no_args_def)
  from update_todo_ambiguous [OF a l, where parse_date = "\<lambda>s. None" and now = 0
      and priority_order = seed_priorities and category_order = seed_categories] v
  have "snd ?run = example_pair"
    and "fst ?run = multiple_msg ''BUY MILK'' (get_todos_by_title example_pair ''BUY MILK'' (user_id alice))"
    by blast+
  then have "?run = (multiple_msg ''BUY MILK'' [example_todo 1 ''Buy milk'' 1, example_todo 2 ''buy milk'' 1],
      example_pair)"
    unfolding m by (metis prod.collapse)
  moreover have "multiple_msg ''BUY MILK'' [example_todo 1 ''Buy milk'' 1, example_todo 2 ''buy milk'' 1] =
      ''Multiple todos found with a title similar to '' @ quoted ''BUY MILK'' @
      ''. Please provide the exact title you wish to update from the following: '' @
      quoted ''Buy milk'' @ '', '' @ quoted ''buy milk'' @ ''.''"
    by (simp add: multiple_msg_def example_todo_def)
  ultimately show ?thesis using a m by simp
qed

text \<open>
  With \<open>"Buy milk"\<close> and \<open>"buy milk"\<close> stored, \<open>update_todo\<close> with \<open>original_title\<close>
  \<open>"Buy milk"\<close> and the change field \<open>priority = "urgent"\<close> matches two tasks and is
  answered by the invalid-priority message, not by the disambiguation message. With two
  tasks titled by the empty string stored, \<open>update_todo\<close> with the empty \<open>original_title\<close>
  and \<open>completed = True\<close> matches both and is answered by the request for a title.
\<close>

theorem update_todo_guards_answer_first:
  "has_change (no_args\<lparr>arg_original_title := Some ''Buy milk'', arg_priority := Some ''urgent''\<rparr>) \<and>
   length (get_todos_by_title example_pair ''Buy milk'' (user_id alice)) = 2 \<and>
   fst (execute_todo_action (\<lambda>s. None) seed_priorities seed_categories 0 ''update_todo''
     (no_args\<lparr>arg_original_title := Some ''Buy milk'', arg_priority := Some ''urgent''\<rparr>)
     example_pair (Some alice)) = invalid_priority_msg seed_priorities ''urgent'' \<and>
   invalid_priority_msg seed_priorities ''urgent'' \<noteq>
     multiple_msg ''Buy milk'' (get_todos_by_title example_pair ''Buy milk'' (user_id alice)) \<and>
   has_change (no_args\<lparr>arg_original_title := Some [], arg_completed := Some True\<rparr>) \<and>
   length (get_todos_by_title example_blank [] (user_id alice)) = 2 \<and>
   fst (execute_todo_action (\<lambda>s. None) seed_priorities seed_categories 0 ''update_todo''
     (no_args\<lparr>arg_original_title := Some [], arg_completed := Some True\<rparr>)
     example_blank (Some alice)) = ''Please provide the title of the todo you want to update.'' \<and>
   ''Please provide the title of the todo you want to update.'' \<noteq>
     multiple_msg [] (get_todos_by_title example_blank [] (user_id alice))"
proof -
  let ?args = "no_args\<lparr>arg_original_title := Some ''Buy milk'', arg_priority := Some ''urgent''\<rparr>"
  let ?blank = "no_args\<lparr>arg_original_title := Some [], arg_completed := Some True\<rparr>"
  have h: "has_change ?args" "has_change ?blank" by (simp_all add: has_change_def)
  have l: "length (get_todos_by_title example_pair ''Buy milk'' (user_id alice)) = 2"
    unfolding example_pair_matches by simp
  have lb: "length (get_todos_by_title example_blank [] (user_id alice)) = 2"
    by (simp add: get_todos_by_title_def example_blank_def example_defs title_matches_def)
  have u: "u_priority (update_data_of ?args None) = Given (Some ''urgent'')"
    by (simp add: update_data_of_def)
  have n: "''urgent'' \<notin> set allowed_priorities" by (simp add: allowed_priorities_def)
  have d: "do_update_todo seed_priorities seed_categories ?args None example_pair alice 0 =
      (invalid_priority_msg seed_priorities ''urgent'', example_pair)"
    unfolding do_update_todo_def Let_def u using n by simp
  have db: "do_update_todo seed_priorities seed_categories ?blank None example_blank alice 0 =
      (''Please provide the title of the todo you want to update.'', example_blank)"
    unfolding do_update_todo_def by simp
  have e: "fst (execute_todo_action (\<lambda>s. None) seed_priorities seed_categories 0 ''update_todo''
      ?args example_pair (Some alice)) = invalid_priority_msg seed_priorities ''urgent''"
  proof -
    have "arg_due_at ?args = None" by (simp add: no_args_def)
    then show ?thesis unfolding execute_update_todo by (simp only: option.case d fst_conv)
  qed
  have eb: "fst (execute_todo_action (\<lambda>s. None) seed_priorities seed_categories 0 ''update_todo''
      ?blank example_blank (Some alice)) = ''Please provide the title of the todo you want to update.''"
  proof -
    have "arg_due_at ?blank = None" by (simp add: no_args_def)
    then show ?thesis unfolding execute_update_todo by (simp only: option.case db fst_conv)
  qed
  have i: "invalid_priority_msg seed_priorities ''urgent'' \<noteq>
     multiple_msg ''Buy milk'' (get_todos_by_title example_pair ''Buy milk'' (user_id alice))"
    by (simp add: invalid_priority_msg_def multiple_msg_def)
  have ib: "''Please provide the title of the todo you want to update.'' \<noteq>
     multiple_msg [] (get_todos_by_title example_blank [] (user_id alice))"
    by (simp add: multiple_msg_def)
  from h l lb e eb i ib show ?thesis by blast
qed

lemma get_todos_default: "get_todos db uid 0 100 = take 100 (owned db uid)"
  by (simp add: get_todos_def owned_def)

lemma do_list_todos_eq:
  "do_list_todos db user =
     (if owned db (user_id user) = [] then ''You have no outstanding todos.''
      else ''Your todos:'' @ [CHR 0x0A] @
           join [CHR 0x0A] (map format_todo (take 100 (owned db (user_id user)))))"
  by (simp add: do_list_todos_def get_todos_default Let_def take_eq_Nil)

text \<open>
  The answer of \<open>list_todos\<close> for a logged-in owner: the fixed no-tasks message when the
  owner has no task, and otherwise the header followed by one line for each of the
  owner's first 100 tasks in store order; the store is left as it is. Every one of the
  owner's tasks is listed when the owner has at most 100.
\<close>

theorem list_todos_first_100:
  "execute_todo_action parse_date priority_order category_order now ''list_todos'' args db (Some user) =
     (if owned db (user_id user) = [] then ''You have no outstanding todos.''
      else ''Your todos:'' @ [CHR 0x0A] @
           join [CHR 0x0A] (map format_todo (take 100 (owned db (user_id user)))), db) \<and>
   (\<forall>t \<in> set (take 100 (owned db (user_id user))).
      sublist (format_todo t)
        (fst (execute_todo_action parse_date priority_order category_order now ''list_todos'' args db (Some user)))) \<and>
   (length (owned db (user_id user)) \<le> 100 \<longrightarrow>
      (\<forall>t \<in> set (owned db (user_id user)).
         sublist (format_todo t)
           (fst (execute_todo_action parse_date priority_order category_order now ''list_todos'' args db (Some user)))))"
proof -
  let ?own = "owned db (user_id user)"
  let ?run = "execute_todo_action parse_date priority_order category_order now ''list_todos'' args db (Some user)"
  have r: "?run = (if ?own = [] then ''You have no outstanding todos.''
      else ''Your todos:'' @ [CHR 0x0A] @ join [CHR 0x0A] (map format_todo (take 100 ?own)), db)"
    by (simp add: execute_list_todos do_list_todos_eq)
  have listed: "sublist (format_todo t) (fst ?run)" if t: "t \<in> set (take 100 ?own)" for t
  proof -
    from t have ne: "?own \<noteq> []" by auto
    from t have "format_todo t \<in> set (map format_todo (take 100 ?own))" by simp
    then have "sublist (format_todo t) (join [CHR 0x0A] (map format_todo (take 100 ?own)))"
      by (rule sublist_join)
    then have "sublist (format_todo t)
        ((''Your todos:'' @ [CHR 0x0A]) @ join [CHR 0x0A] (map format_todo (take 100 ?own)))"
      by (meson sublist_append_leftI sublist_order.order.trans)
    with ne show ?thesis unfolding r by simp
  qed
  have all: "length ?own \<le> 100 \<longrightarrow> (\<forall>t \<in> set ?own. sublist (format_todo t) (fst ?run))"
  proof (intro impI ballI)
    fix t assume "length ?own \<le> 100" "t \<in> set ?own"
    then have "t \<in> set (take 100 ?own)" by simp
    then show "sublist (format_todo t) (fst ?run)" by (rule listed)
  qed
  from r listed all show ?thesis by blast
qed

theorem list_todos_first_100_witness:
  "length (owned example_shared (user_id alice)) \<le> 100 \<and>
   execute_todo_action (\<lambda>s. None) seed_priorities seed_categories 0 ''list_todos'' no_args example_shared (Some alice) =
     (''Your todos:'' @ [CHR 0x0A] @
      ''- Buy milk (Priority: low, Category: others, Completed: False)'' @ [CHR 0x0A] @
      ''- Call mum (Priority: high, Category: others, Completed: True)'', example_shared) \<and>
   sublist (format_todo (example_todo 1 ''Buy milk'' 1))
     (fst (execute_todo_action (\<lambda>s. None) seed_priorities seed_categories 0 ''list_todos'' no_args example_shared (Some alice))) \<and>
   execute_todo_action (\<lambda>s. None) seed_priorities seed_categories 0 ''list_todos'' no_args (example_db []) (Some alice) =
     (''You have no outstanding todos.'', example_db [])"
proof -
  let ?run = "execute_todo_action (\<lambda>s. None) seed_priorities seed_categories 0 ''list_todos'' no_args example_shared (Some alice)"
  have o: "owned example_shared (user_id alice) =
      [example_todo 1 ''Buy milk'' 1,
       (example_todo 3 ''Call mum'' 1)\<lparr>completed := True, priority := ''high''\<rparr>]"
    by (simp add: owned_def example_shared_def example_db_def alice_def example_todo_def)
  have e: "owned (example_db []) (user_id alice) = []"
    by (simp add: owned_def example_db_def)
  have f: "format_todo (example_todo 1 ''Buy milk'' 1) =
      ''- Buy milk (Priority: low, Category: others, Completed: False)''"
    "format_todo ((example_todo 3 ''Call mum'' 1)\<lparr>completed := True, priority := ''high''\<rparr>) =
      ''- Call mum (Priority: high, Category: others, Completed: True)''"
    by (simp_all add: format_todo_def example_todo_def str_bool_def)
  note t = list_todos_first_100 [of "\<lambda>s. None" seed_priorities seed_categories 0 no_args
      example_shared alice]
  from t have r: "?run = (''Your todos:'' @ [CHR 0x0A] @
      ''- Buy milk (Priority: low, Category: others, Completed: False)'' @ [CHR 0x0A] @
      ''- Call mum (Priority: high, Category: others, Completed: True)'', example_shared)"
    unfolding o by (simp add: f)
  have l: "length (owned example_shared (user_id alice)) \<le> 100" unfolding o by simp
  from t have "\<forall>t \<in> set (take 100 (owned example_shared (user_id alice))).
      sublist (format_todo t) (fst ?run)" by blast
  moreover have "example_todo 1 ''Buy milk'' 1 \<in> set (take 100 (owned example_shared (user_id alice)))"
    unfolding o by simp
  ultimately have s: "sublist (format_todo (example_todo 1 ''Buy milk'' 1)) (fst ?run)" by blast
  from list_todos_first_100 [of "\<lambda>s. None" seed_priorities seed_categories 0 no_args
      "example_db []" alice]
  have n: "execute_todo_action (\<lambda>s. None) seed_priorities seed_categories 0 ''list_todos'' no_args (example_db []) (Some alice) =
     (''You have no outstanding todos.'', example_db [])"
    unfolding e by simp
  from l r s n show ?thesis by blast
qed

lemma set_str_nat: "set (str_nat n) \<subseteq> set ''0123456789''"
proof (induction n rule: str_nat.induct)
  case (1 n)
  have d: "digit_char k \<in> set ''0123456789''" if "k < 10" for k
    unfolding digit_char_def using that by (intro nth_mem) simp
  show ?case
  proof (cases "n < 10")
    case True
    then show ?thesis using d [of n] by (simp add: str_nat.simps [of n])
  next
    case False
    with "1.IH" have "set (str_nat (n div 10)) \<subseteq> set ''0123456789''" by simp
    moreover have "digit_char (n mod 10) \<in> set ''0123456789''" by (rule d) simp
    ultimately show ?thesis using False by (simp add: str_nat.simps [of n])
  qed
qed

lemma owned_example_many:
  "owned example_many (user_id alice) =
     map (\<lambda>i. example_todo (int i) (''task '' @ str_nat i) 1) [1..<101] @ [example_todo 101 ''zzz'' 1]"
  by (simp add: owned_def example_many_def example_db_def alice_def example_todo_def comp_def)

lemma no_z_in_line: "CHR ''z'' \<notin> set (format_todo (example_todo (int i) (''task '' @ str_nat i) 1))"
proof -
  have "CHR ''z'' \<notin> set (str_nat i)" using set_str_nat [of i] by auto
  then show ?thesis by (simp add: format_todo_def example_todo_def str_bool_def)
qed

text \<open>
  C6. The claim fails on the code for an owner with more than 100 tasks. In the store
  \<open>example_many\<close> the owner has 101 tasks, the last one titled \<open>zzz\<close>, and the answer
  of \<open>list_todos\<close> does not contain the line of that task, whatever the arguments, the
  clock and the date parser: the branch calls \<open>crud.get_todos\<close> without \<open>skip\<close> and
  \<open>limit\<close> and so inherits the default \<open>limit=100\<close>, while the tool is declared as
  listing all to-do items of the user and takes no paging argument.
\<close>

theorem list_todos_omits_task_101:
  "example_todo 101 ''zzz'' 1 \<in> set (owned example_many (user_id alice)) \<and>
   \<not> sublist (format_todo (example_todo 101 ''zzz'' 1))
       (fst (execute_todo_action parse_date priority_order category_order now ''list_todos'' args
               example_many (Some alice)))"
proof -
  let ?f = "\<lambda>i. example_todo (int i) (''task '' @ str_nat i) 1"
  let ?run = "execute_todo_action parse_date priority_order category_order now ''list_todos'' args
      example_many (Some alice)"
  have mem: "example_todo 101 ''zzz'' 1 \<in> set (owned example_many (user_id alice))"
    unfolding owned_example_many by simp
  have tk: "take 100 (owned example_many (user_id alice)) = map ?f [1..<101]"
    unfolding owned_example_many by simp
  have ne: "owned example_many (user_id alice) \<noteq> []" unfolding owned_example_many by simp
  have run: "fst ?run = ''Your todos:'' @ [CHR 0x0A] @ join [CHR 0x0A] (map format_todo (map ?f [1..<101]))"
    using ne by (simp add: execute_list_todos do_list_todos_eq tk)
  have "CHR ''z'' \<notin> set (join [CHR 0x0A] (map format_todo (map ?f [1..<101])))"
  proof
    assume "CHR ''z'' \<in> set (join [CHR 0x0A] (map format_todo (map ?f [1..<101])))"
    with set_join [of "[CHR 0x0A]" "map format_todo (map ?f [1..<101])"]
    have "CHR ''z'' \<in> set [CHR 0x0A] \<union> (\<Union>x \<in> set (map format_todo (map ?f [1..<101])). set x)"
      by blast
    then obtain i where "CHR ''z'' \<in> set (format_todo (?f i))" by auto
    with no_z_in_line [of i] show False by simp
  qed
  then have nz: "CHR ''z'' \<notin> set (fst ?run)" unfolding run by simp
  have z: "CHR ''z'' \<in> set (format_todo (example_todo 101 ''zzz'' 1))"
    by (simp add: format_todo_def example_todo_def)
  have "\<not> sublist (format_todo (example_todo 101 ''zzz'' 1)) (fst ?run)"
  proof
    assume "sublist (format_todo (example_todo 101 ''zzz'' 1)) (fst ?run)"
    then have "set (format_todo (example_todo 101 ''zzz'' 1)) \<subseteq> set (fst ?run)"
      by (rule set_mono_sublist)
    with z nz show False by blast
  qed
  with mem show ?thesis by simp
qed

lemma update_user_todo_dict:
  "(case update_user_todo db i (PlainDict upd) uid now of Inl e \<Rightarrow> a | Inr r \<Rightarrow> b r) = a"
  by (simp add: update_user_todo_def split: option.splits)

lemma do_update_todo_single:
  assumes "arg_original_title args = Some original_title" "original_title \<noteq> []"
      and "get_todos_by_title db original_title (user_id user) = [target_todo]"
      and "arg_completed args = Some b" "arg_title args = None" "arg_new_title args = None"
          "arg_description args = None" "arg_priority args = None" "arg_category args = None"
  shows "do_update_todo priority_order category_order args None db user now = (sorry_msg, db)"
proof -
  have u: "update_data_of args None =
      \<lparr>u_title = Unset, u_description = Unset, u_due_at = Unset, u_completed = Given (Some b),
       u_priority = Unset, u_category = Unset\<rparr>"
    using assms(4-9) by (simp add: update_data_of_def)
  have f: "update_fields (update_data_of args None) = [''completed'']"
    unfolding u by (simp add: update_fields_def)
  have l: "\<not> title_too_long (update_data_of args None)"
    unfolding u by (simp add: title_too_long_def)
  show ?thesis
    unfolding do_update_todo_def Let_def update_user_todo_dict
    using assms(1,2,3) f l by (simp add: u)
qed

text \<open>
  C10. With one task \<open>"Buy milk"\<close> stored and \<open>completed\<close> as the only change field,
  \<open>update_todo\<close> answers the apology of the exception handler for \<open>completed = True\<close>
  and for \<open>completed = False\<close> alike, and leaves the store as it is: the dict passed to
  \<open>update_user_todo\<close> has no \<open>model_dump\<close>, so the call raises before it writes and
  the message \<open>Successfully marked ... as complete\<close> is not reached.
\<close>

theorem mark_complete_answers_sorry:
  "get_todos_by_title (example_db [example_todo 1 ''Buy milk'' 1]) ''Buy milk'' (user_id alice) =
     [example_todo 1 ''Buy milk'' 1] \<and>
   execute_todo_action parse_date priority_order category_order now ''update_todo''
     (no_args\<lparr>arg_original_title := Some ''Buy milk'', arg_completed := Some True\<rparr>)
     (example_db [example_todo 1 ''Buy milk'' 1]) (Some alice) =
     (''Sorry, I ran into an unexpected issue.'', example_db [example_todo 1 ''Buy milk'' 1]) \<and>
   execute_todo_action parse_date priority_order category_order now ''update_todo''
     (no_args\<lparr>arg_original_title := Some ''Buy milk'', arg_completed := Some False\<rparr>)
     (example_db [example_todo 1 ''Buy milk'' 1]) (Some alice) =
     (''Sorry, I ran into an unexpected issue.'', example_db [example_todo 1 ''Buy milk'' 1]) \<and>
   ''Sorry, I ran into an unexpected issue.'' \<noteq> marked_complete_msg ''Buy milk''"
proof -
  let ?db = "example_db [example_todo 1 ''Buy milk'' 1]"
  have m: "get_todos_by_title ?db ''Buy milk'' (user_id alice) = [example_todo 1 ''Buy milk'' 1]"
    by (simp add: get_todos_by_title_def example_defs title_matches_def)
  have run: "execute_todo_action parse_date priority_order category_order now ''update_todo''
      (no_args\<lparr>arg_original_title := Some ''Buy milk'', arg_completed := Some b\<rparr>) ?db (Some alice) =
      (sorry_msg, ?db)" for b
  proof -
    let ?args = "no_args\<lparr>arg_original_title := Some ''Buy milk'', arg_completed := Some b\<rparr>"
    have a: "arg_due_at ?args = None" by (simp add: no_args_def)
    have "do_update_todo priority_order category_order ?args None ?db alice now = (sorry_msg, ?db)"
      by (rule do_update_todo_single [OF _ _ m]) (simp_all add: no_args_def)
    with a show ?thesis unfolding execute_update_todo by (simp only: option.case)
  qed
  have n: "''Sorry, I ran into an unexpected issue.'' \<noteq> marked_complete_msg ''Buy milk''"
    by (simp add: marked_complete_msg_def)
  from m run [of True] run [of False] n show ?thesis by (simp add: sorry_msg_def)
qed

end
